theory Spec2Isabelle
  imports Complex_Main "HOL-Library.Sublist" "HOL-Library.Dlist"
begin

section \<open>Strings as Go has them\<close>

text \<open>
  A Go string is a sequence of bytes; \<^typ>\<open>string\<close> is a list of 8-bit characters.
  The functions of package \<open>strings\<close> and \<open>strconv\<close> that the provider calls are
  written out here. An \<open>error\<close> value is represented by its message.
\<close>

definition byte :: "char \<Rightarrow> nat" where
  "byte c = of_char c"

definition between :: "char \<Rightarrow> char \<Rightarrow> char \<Rightarrow> bool" where
  "between lo hi c = (byte lo \<le> byte c \<and> byte c \<le> byte hi)"

definition isDigit :: "char \<Rightarrow> bool" where
  "isDigit c = between (CHR ''0'') (CHR ''9'') c"

definition isLower :: "char \<Rightarrow> bool" where
  "isLower c = between (CHR ''a'') (CHR ''z'') c"

definition isUpper :: "char \<Rightarrow> bool" where
  "isUpper c = between (CHR ''A'') (CHR ''Z'') c"

definition isASCII :: "char \<Rightarrow> bool" where
  "isASCII c = (byte c < 128)"

definition HasPrefix :: "string \<Rightarrow> string \<Rightarrow> bool" where
  "HasPrefix s p = (take (length p) s = p)"

text \<open>\<open>strings.Split(s, sep)\<close> for a one-byte separator: the pieces between the
  separators, never the empty list.\<close>

fun Split :: "string \<Rightarrow> char \<Rightarrow> string list" where
  "Split [] sep = [[]]"
| "Split (c # cs) sep =
     (if c = sep then [] # Split cs sep
      else (case Split cs sep of [] \<Rightarrow> [[c]] | x # xs \<Rightarrow> (c # x) # xs))"

fun Join :: "string list \<Rightarrow> string \<Rightarrow> string" where
  "Join [] sep = []"
| "Join [x] sep = x"
| "Join (x # y # ys) sep = x @ sep @ Join (y # ys) sep"

fun Contains :: "string \<Rightarrow> string \<Rightarrow> bool" where
  "Contains [] sub = (sub = [])"
| "Contains (c # cs) sub = (HasPrefix (c # cs) sub \<or> Contains cs sub)"

definition upperByte :: "char \<Rightarrow> char" where
  "upperByte c = (if isLower c then char_of (byte c - 32) else c)"

definition lowerByte :: "char \<Rightarrow> char" where
  "lowerByte c = (if isUpper c then char_of (byte c + 32) else c)"

text \<open>
  What the provider takes from libraries and what is not written out below is a
  parameter of the model:
  \<^item> \<open>unicode_ToUpper\<close> is \<open>strings.Map(unicode.ToUpper, s)\<close>, the path
    \<open>strings.ToUpper\<close> takes on a string with a byte outside ASCII;
  \<^item> \<open>url_rest raw scheme rest frag\<close> is what \<open>net/url\<close>'s \<open>Parse\<close> does after it has
    split the scheme off: the query, the authority, the path and the fragment. It fails
    with a message or gives the \<open>Host\<close> of the URL;
  \<^item> \<open>fmt_f\<close> is \<open>fmt\<close>'s \<open>%f\<close> of a float64.
\<close>

record stdlib =
  unicode_ToUpper :: "string \<Rightarrow> string"
  url_rest :: "string \<Rightarrow> string \<Rightarrow> string \<Rightarrow> string \<Rightarrow> string + string"
  fmt_f :: "real \<Rightarrow> string"

definition ToUpper :: "stdlib \<Rightarrow> string \<Rightarrow> string" where
  "ToUpper L s = (if list_all isASCII s then map upperByte s else unicode_ToUpper L s)"

fun digitsVal :: "string \<Rightarrow> int \<Rightarrow> int" where
  "digitsVal [] n = n"
| "digitsVal (c # cs) n = digitsVal cs (n * 10 + (int (byte c) - 48))"

text \<open>\<open>strconv.Atoi\<close> on a 64-bit platform: an optional sign, then decimal digits, at
  least one; a value outside the int64 range is an error too. \<open>None\<close> is the error.\<close>

definition Atoi :: "string \<Rightarrow> int option" where
  "Atoi s =
     (let neg = (s \<noteq> [] \<and> hd s = CHR ''-'');
          body = (if s \<noteq> [] \<and> (hd s = CHR ''+'' \<or> hd s = CHR ''-'') then tl s else s)
      in if body = [] \<or> \<not> list_all isDigit body then None
         else let un = digitsVal body 0
              in if \<not> neg \<and> un \<ge> 9223372036854775808 then None
                 else if neg \<and> un > 9223372036854775808 then None
                 else Some (if neg then - un else un))"

fun natDigits :: "nat \<Rightarrow> string" where
  "natDigits n =
     (if n < 10 then [char_of (48 + n)] else natDigits (n div 10) @ [char_of (48 + n mod 10)])"

definition Itoa :: "int \<Rightarrow> string" where
  "Itoa i = (if i < 0 then CHR ''-'' # natDigits (nat (- i)) else natDigits (nat i))"

definition dquote :: char where
  "dquote = CHR 0x22"

definition backslash :: char where
  "backslash = CHR 0x5C"

definition hexDigit :: "nat \<Rightarrow> char" where
  "hexDigit n = (if n < 10 then char_of (48 + n) else char_of (87 + n))"

text \<open>\<open>fmt\<close>'s \<open>%q\<close> of a string is \<open>strconv.Quote\<close>. Bytes from 0x80 on are kept as they
  are, which is what Go does for printable UTF-8.\<close>

definition quoteByte :: "char \<Rightarrow> string" where
  "quoteByte c =
     (if c = dquote then [backslash, dquote]
      else if c = backslash then [backslash, backslash]
      else if c = CHR 0x07 then [backslash, CHR ''a'']
      else if c = CHR 0x08 then [backslash, CHR ''b'']
      else if c = CHR 0x0C then [backslash, CHR ''f'']
      else if c = CHR 0x0A then [backslash, CHR ''n'']
      else if c = CHR 0x0D then [backslash, CHR ''r'']
      else if c = CHR 0x09 then [backslash, CHR ''t'']
      else if c = CHR 0x0B then [backslash, CHR ''v'']
      else if byte c < 32 \<or> byte c = 127
        then [backslash, CHR ''x'', hexDigit (byte c div 16), hexDigit (byte c mod 16)]
      else [c])"

definition Quote :: "string \<Rightarrow> string" where
  "Quote s = dquote # concat (map quoteByte s) @ [dquote]"

section \<open>Regular expressions\<close>

text \<open>
  Both patterns of the provider start with \<open>^\<close> and end with \<open>$\<close>, so
  \<open>MatchString\<close> asks whether the whole string is in the language of the pattern. A
  pattern is a term of \<open>rexp\<close>; a character class is a list of byte ranges;
  \<open>r{lo,hi}\<close> is \<open>rep r lo hi\<close>. The decision procedure takes derivatives.
\<close>

datatype rexp = Zero | One | Cls "(char \<times> char) list"
  | Plus rexp rexp | Times rexp rexp | Star rexp

fun in_cls :: "char \<Rightarrow> (char \<times> char) list \<Rightarrow> bool" where
  "in_cls c [] = False"
| "in_cls c ((lo, hi) # rs) = (between lo hi c \<or> in_cls c rs)"

fun nullable :: "rexp \<Rightarrow> bool" where
  "nullable Zero = False"
| "nullable One = True"
| "nullable (Cls rs) = False"
| "nullable (Plus r s) = (nullable r \<or> nullable s)"
| "nullable (Times r s) = (nullable r \<and> nullable s)"
| "nullable (Star r) = True"

fun nplus :: "rexp \<Rightarrow> rexp \<Rightarrow> rexp" where
  "nplus Zero s = s"
| "nplus r Zero = r"
| "nplus r s = Plus r s"

fun ntimes :: "rexp \<Rightarrow> rexp \<Rightarrow> rexp" where
  "ntimes Zero s = Zero"
| "ntimes One s = s"
| "ntimes r s = Times r s"

fun deriv :: "char \<Rightarrow> rexp \<Rightarrow> rexp" where
  "deriv c Zero = Zero"
| "deriv c One = Zero"
| "deriv c (Cls rs) = (if in_cls c rs then One else Zero)"
| "deriv c (Plus r s) = nplus (deriv c r) (deriv c s)"
| "deriv c (Times r s) =
     (if nullable r then nplus (ntimes (deriv c r) s) (deriv c s)
      else ntimes (deriv c r) s)"
| "deriv c (Star r) = ntimes (deriv c r) (Star r)"

fun matches :: "rexp \<Rightarrow> string \<Rightarrow> bool" where
  "matches r [] = nullable r"
| "matches r (c # cs) = matches (deriv c r) cs"

definition MatchString :: "rexp \<Rightarrow> string \<Rightarrow> bool" where
  "MatchString r s = matches r s"

fun upto :: "nat \<Rightarrow> rexp \<Rightarrow> rexp" where
  "upto 0 r = One"
| "upto (Suc n) r = Plus One (Times r (upto n r))"

fun exactly :: "nat \<Rightarrow> rexp \<Rightarrow> rexp \<Rightarrow> rexp" where
  "exactly 0 r k = k"
| "exactly (Suc n) r k = Times r (exactly n r k)"

definition rep :: "rexp \<Rightarrow> nat \<Rightarrow> nat \<Rightarrow> rexp" where
  "rep r lo hi = exactly lo r (upto (hi - lo) r)"

definition Chr :: "char \<Rightarrow> rexp" where
  "Chr c = Cls [(c, c)]"

text \<open>The language of a pattern, against which the decision procedure is proved.\<close>

definition conc :: "string set \<Rightarrow> string set \<Rightarrow> string set" where
  "conc A B = {xs @ ys | xs ys. xs \<in> A \<and> ys \<in> B}"

inductive_set star :: "string set \<Rightarrow> string set" for A :: "string set" where
  star_nil: "[] \<in> star A"
| star_app: "u \<in> A \<Longrightarrow> v \<in> star A \<Longrightarrow> u @ v \<in> star A"

fun lang :: "rexp \<Rightarrow> string set" where
  "lang Zero = {}"
| "lang One = {[]}"
| "lang (Cls rs) = {[c] | c. in_cls c rs}"
| "lang (Plus r s) = lang r \<union> lang s"
| "lang (Times r s) = conc (lang r) (lang s)"
| "lang (Star r) = star (lang r)"

section \<open>The constants of \<open>resource_check.go\<close>\<close>

definition protocolHTTP :: string where
  "protocolHTTP = ''HTTP''"

definition protocolHTTPS :: string where
  "protocolHTTPS = ''HTTPS''"

definition protocolTCP :: string where
  "protocolTCP = ''TCP''"

text \<open>\<open>[a-zA-Z0-9_]\<close> and \<open>[a-zA-Z0-9_-]\<close>, the two classes of \<open>validDNSNamePattern\<close>.\<close>

definition dnsFirst :: rexp where
  "dnsFirst = Cls [(CHR ''a'', CHR ''z''), (CHR ''A'', CHR ''Z''), (CHR ''0'', CHR ''9''),
     (CHR ''_'', CHR ''_'')]"

definition dnsNext :: rexp where
  "dnsNext = Cls [(CHR ''a'', CHR ''z''), (CHR ''A'', CHR ''Z''), (CHR ''0'', CHR ''9''),
     (CHR ''_'', CHR ''_''), (CHR ''-'', CHR ''-'')]"

text \<open>\<^verbatim>\<open>^([a-zA-Z0-9_]{1}[a-zA-Z0-9_-]{0,62}){1}(\.[a-zA-Z0-9_]{1}[a-zA-Z0-9_-]{0,62})*[\._]?$\<close>\<close>

definition validDNSNamePattern :: rexp where
  "validDNSNamePattern =
     Times (rep (Times (rep dnsFirst 1 1) (rep dnsNext 0 62)) 1 1)
       (Times (Star (Times (Chr (CHR ''.'')) (Times (rep dnsFirst 1 1) (rep dnsNext 0 62))))
          (rep (Cls [(CHR ''.'', CHR ''.''), (CHR ''_'', CHR ''_'')]) 0 1))"

definition c15 :: rexp where
  "c15 = Cls [(CHR ''1'', CHR ''5'')]"

definition c09 :: rexp where
  "c09 = Cls [(CHR ''0'', CHR ''9'')]"

text \<open>One entry of \<open>validUpCodePattern\<close>:
  \<^verbatim>\<open>[1-5]{1}[0-9]{2}-[1-5]{1}[0-9]{2}|([1-5]{1}(([0-9]{2}|[0-9]{1}x)|xx))\<close>\<close>

definition upCodeEntry :: rexp where
  "upCodeEntry =
     Plus
       (Times (rep c15 1 1) (Times (rep c09 2 2) (Times (Chr (CHR ''-''))
          (Times (rep c15 1 1) (rep c09 2 2)))))
       (Times (rep c15 1 1)
          (Plus (Plus (rep c09 2 2) (Times (rep c09 1 1) (Chr (CHR ''x''))))
                (Times (Chr (CHR ''x'')) (Chr (CHR ''x'')))))"

text \<open>\<^verbatim>\<open>^(ENTRY){1}(,(ENTRY))*$\<close>\<close>

definition validUpCodePattern :: rexp where
  "validUpCodePattern =
     Times (rep upCodeEntry 1 1) (Star (Times (Chr (CHR '','')) upCodeEntry))"

definition supportedRegions :: "string list" where
  "supportedRegions =
     [''af-south-1'', ''ap-east-1'', ''ap-northeast-1'', ''ap-south-1'', ''ap-southeast-1'',
      ''ap-southeast-2'', ''eu-central-1'', ''eu-west-1'', ''sa-east-1'', ''us-east-1'',
      ''us-west-1'']"

definition supportedHTTPMethods :: "string list" where
  "supportedHTTPMethods = [''GET'', ''HEAD'', ''POST'', ''PUT'', ''DELETE'']"

section \<open>Hosts: \<open>net.ParseIP\<close>, \<open>isIP\<close>, \<open>isDNSName\<close>, \<open>isHost\<close>\<close>

text \<open>
  \<open>net.ParseIP\<close> is written after the implementation in Go's \<open>net/ip.go\<close>: the first
  \<open>.\<close> or \<open>:\<close> of the string decides between \<open>parseIPv4\<close> and \<open>parseIPv6\<close>. The result
  is the list of the address's bytes, \<open>None\<close> for Go's \<open>nil\<close>.
\<close>

definition big :: int where
  "big = 0xFFFFFF"

text \<open>\<open>dtoi\<close> and \<open>xtoi\<close> give the number, the count of characters consumed, and success.\<close>

fun dtoi_loop :: "string \<Rightarrow> int \<Rightarrow> nat \<Rightarrow> int \<times> nat \<times> bool" where
  "dtoi_loop [] n i = (if i = 0 then (0, 0, False) else (n, i, True))"
| "dtoi_loop (c # cs) n i =
     (if isDigit c
      then (let n' = n * 10 + (int (byte c) - 48)
            in if n' \<ge> big then (big, i, False) else dtoi_loop cs n' (i + 1))
      else (if i = 0 then (0, 0, False) else (n, i, True)))"

definition dtoi :: "string \<Rightarrow> int \<times> nat \<times> bool" where
  "dtoi s = dtoi_loop s 0 0"

definition hexVal :: "char \<Rightarrow> int option" where
  "hexVal c =
     (if between (CHR ''0'') (CHR ''9'') c then Some (int (byte c) - 48)
      else if between (CHR ''a'') (CHR ''f'') c then Some (int (byte c) - 97 + 10)
      else if between (CHR ''A'') (CHR ''F'') c then Some (int (byte c) - 65 + 10)
      else None)"

fun xtoi_loop :: "string \<Rightarrow> int \<Rightarrow> nat \<Rightarrow> int \<times> nat \<times> bool" where
  "xtoi_loop [] n i = (if i = 0 then (0, i, False) else (n, i, True))"
| "xtoi_loop (c # cs) n i =
     (case hexVal c of
        None \<Rightarrow> (if i = 0 then (0, i, False) else (n, i, True))
      | Some d \<Rightarrow>
          (let n' = n * 16 + d
           in if n' \<ge> big then (0, i, False) else xtoi_loop cs n' (i + 1)))"

definition xtoi :: "string \<Rightarrow> int \<times> nat \<times> bool" where
  "xtoi s = xtoi_loop s 0 0"

text \<open>The loop of \<open>parseIPv4\<close> over the four octets; \<open>k\<close> octets are still to be read,
  \<open>p\<close> holds the ones read.\<close>

fun parseIPv4_loop :: "nat \<Rightarrow> string \<Rightarrow> int list \<Rightarrow> int list option" where
  "parseIPv4_loop 0 s p = (if s \<noteq> [] then None else Some p)"
| "parseIPv4_loop (Suc k) s p =
     (if s = [] then None
      else if p \<noteq> [] \<and> hd s \<noteq> CHR ''.'' then None
      else (let s1 = (if p \<noteq> [] then tl s else s)
            in case dtoi s1 of (n, c, ok) \<Rightarrow>
              if \<not> ok \<or> n > 0xFF then None
              else if c > 1 \<and> hd s1 = CHR ''0'' then None
              else parseIPv4_loop k (drop c s1) (p @ [n])))"

definition parseIPv4 :: "string \<Rightarrow> int list option" where
  "parseIPv4 s = parseIPv4_loop 4 s []"

text \<open>The loop of \<open>parseIPv6\<close>. Its state is the bytes written so far (\<open>i\<close> of the source
  is their number), the position of the ellipsis if one was seen, and the rest of the
  string. \<open>Inl ()\<close> is the source's \<open>return nil\<close> inside the loop.\<close>

function parseIPv6_loop :: "int list \<Rightarrow> nat option \<Rightarrow> string
    \<Rightarrow> unit + (int list \<times> nat option \<times> string)" where
  "parseIPv6_loop ip ellipsis s =
     (if \<not> length ip < 16 then Inr (ip, ellipsis, s)
      else case xtoi s of (n, c, ok) \<Rightarrow>
        if \<not> ok \<or> n > 0xFFFF then Inl ()
        else if c < length s \<and> s ! c = CHR ''.''
        then (if ellipsis = None \<and> length ip \<noteq> 12 then Inl ()
              else if length ip + 4 > 16 then Inl ()
              else case parseIPv4 s of
                     None \<Rightarrow> Inl ()
                   | Some ip4 \<Rightarrow> Inr (ip @ ip4, ellipsis, []))
        else (let ip' = ip @ [n div 256, n mod 256]; s1 = drop c s
              in if s1 = [] then Inr (ip', ellipsis, s1)
                 else if hd s1 \<noteq> CHR '':'' \<or> length s1 = 1 then Inl ()
                 else (let s2 = tl s1
                       in if hd s2 = CHR '':''
                          then (if ellipsis \<noteq> None then Inl ()
                                else if tl s2 = [] then Inr (ip', Some (length ip'), tl s2)
                                else parseIPv6_loop ip' (Some (length ip')) (tl s2))
                          else parseIPv6_loop ip' ellipsis s2)))"
  by pat_completeness auto
termination
  by (relation "measure (\<lambda>(ip, e, s). 16 - length ip)") auto

definition parseIPv6_finish :: "int list \<times> nat option \<times> string \<Rightarrow> int list option" where
  "parseIPv6_finish st =
     (case st of (ip, ellipsis, s) \<Rightarrow>
        if s \<noteq> [] then None
        else if length ip < 16
        then (case ellipsis of
                None \<Rightarrow> None
              | Some e \<Rightarrow> Some (take e ip @ replicate (16 - length ip) 0 @ drop e ip))
        else if ellipsis \<noteq> None then None
        else Some ip)"

definition parseIPv6 :: "string \<Rightarrow> int list option" where
  "parseIPv6 s =
     (if length s \<ge> 2 \<and> s ! 0 = CHR '':'' \<and> s ! 1 = CHR '':''
      then (if drop 2 s = [] then Some (replicate 16 0)
            else case parseIPv6_loop [] (Some 0) (drop 2 s) of
                   Inl _ \<Rightarrow> None
                 | Inr st \<Rightarrow> parseIPv6_finish st)
      else case parseIPv6_loop [] None s of
             Inl _ \<Rightarrow> None
           | Inr st \<Rightarrow> parseIPv6_finish st)"

fun ParseIP_scan :: "string \<Rightarrow> string \<Rightarrow> int list option" where
  "ParseIP_scan s [] = None"
| "ParseIP_scan s (c # cs) =
     (if c = CHR ''.'' then map_option (\<lambda>p. replicate 10 0 @ [255, 255] @ p) (parseIPv4 s)
      else if c = CHR '':'' then parseIPv6 s
      else ParseIP_scan s cs)"

definition ParseIP :: "string \<Rightarrow> int list option" where
  "ParseIP s = ParseIP_scan s s"

definition isIP :: "string \<Rightarrow> bool" where
  "isIP str = (ParseIP str \<noteq> None)"

definition isDNSName :: "string \<Rightarrow> bool" where
  "isDNSName str =
     (if str = [] \<or> length (filter (\<lambda>c. c \<noteq> CHR ''.'') str) > 255 then False
      else \<not> isIP str \<and> MatchString validDNSNamePattern str)"

definition isHost :: "string \<Rightarrow> bool" where
  "isHost str = (isIP str \<or> isDNSName str)"

fun stringInSlice :: "string \<Rightarrow> string list \<Rightarrow> bool" where
  "stringInSlice s [] = False"
| "stringInSlice s (h # slice) = (if s = h then True else stringInSlice s slice)"

section \<open>URLs: \<open>url.Parse\<close> up to the scheme\<close>

definition stringContainsCTLByte :: "string \<Rightarrow> bool" where
  "stringContainsCTLByte s = list_ex (\<lambda>c. byte c < 32 \<or> byte c = 127) s"

text \<open>\<open>getScheme\<close> of \<open>net/url\<close>: \<open>Inl\<close> is its error, \<open>Inr\<close> the scheme and what follows the
  colon. \<open>i\<close> is the index of the character looked at.\<close>

fun getScheme_loop :: "string \<Rightarrow> string \<Rightarrow> nat \<Rightarrow> string + (string \<times> string)" where
  "getScheme_loop rawURL [] i = Inr ([], rawURL)"
| "getScheme_loop rawURL (c # cs) i =
     (if isLower c \<or> isUpper c then getScheme_loop rawURL cs (i + 1)
      else if isDigit c \<or> c = CHR ''+'' \<or> c = CHR ''-'' \<or> c = CHR ''.''
        then (if i = 0 then Inr ([], rawURL) else getScheme_loop rawURL cs (i + 1))
      else if c = CHR '':''
        then (if i = 0 then Inl ''missing protocol scheme''
              else Inr (take i rawURL, drop (i + 1) rawURL))
      else Inr ([], rawURL))"

definition getScheme :: "string \<Rightarrow> string + (string \<times> string)" where
  "getScheme rawURL = getScheme_loop rawURL rawURL 0"

definition urlError :: "string \<Rightarrow> string \<Rightarrow> string" where
  "urlError u e = ''parse '' @ Quote u @ '': '' @ e"

text \<open>\<open>url.Parse\<close>: the fragment is cut off at the first \<open>#\<close>, a control byte is an
  error, then the scheme is split off and lower-cased; the rest of the parse is
  \<open>url_rest\<close>. The result is the \<open>Scheme\<close> and the \<open>Host\<close> of the URL.\<close>

definition url_Parse :: "stdlib \<Rightarrow> string \<Rightarrow> string + (string \<times> string)" where
  "url_Parse L rawURL =
     (let u = takeWhile (\<lambda>c. c \<noteq> CHR ''#'') rawURL;
          frag = drop 1 (dropWhile (\<lambda>c. c \<noteq> CHR ''#'') rawURL)
      in if stringContainsCTLByte u
         then Inl (urlError u ''net/url: invalid control character in URL'')
         else if u = ''*''
         then (case url_rest L rawURL [] u frag of Inl e \<Rightarrow> Inl e | Inr h \<Rightarrow> Inr ([], []))
         else case getScheme u of
                Inl e \<Rightarrow> Inl (urlError u e)
              | Inr (scheme, rest) \<Rightarrow>
                  (case url_rest L rawURL (map lowerByte scheme) rest frag of
                     Inl e \<Rightarrow> Inl e
                   | Inr host \<Rightarrow> Inr (map lowerByte scheme, host)))"

section \<open>Validation\<close>

text \<open>
  A \<open>ValidateFunc\<close> takes the value as an \<open>interface{}\<close> and the key, and returns
  warnings and errors. None of the functions here produces a warning, so the model
  returns the errors: the list of their messages, empty when the value is accepted.
  The functions of the SDK's \<open>helper/validation\<close> come first.
\<close>

datatype iface = StringVal string | IntVal int | FloatVal real | OtherVal

definition IntBetween :: "int \<Rightarrow> int \<Rightarrow> iface \<Rightarrow> string \<Rightarrow> string list" where
  "IntBetween lo hi i k =
     (case i of
        IntVal v \<Rightarrow>
          if v < lo \<or> v > hi
          then [''expected '' @ k @ '' to be in the range ('' @ Itoa lo @ '' - '' @ Itoa hi
                 @ ''), got '' @ Itoa v]
          else []
      | _ \<Rightarrow> [''expected type of '' @ k @ '' to be integer''])"

definition FloatBetween :: "stdlib \<Rightarrow> real \<Rightarrow> real \<Rightarrow> iface \<Rightarrow> string \<Rightarrow> string list" where
  "FloatBetween L lo hi i k =
     (case i of
        FloatVal v \<Rightarrow>
          if v < lo \<or> v > hi
          then [''expected '' @ k @ '' to be in the range ('' @ fmt_f L lo @ '' - ''
                 @ fmt_f L hi @ ''), got '' @ fmt_f L v]
          else []
      | _ \<Rightarrow> [''expected type of '' @ k @ '' to be float64''])"

definition StringLenBetween :: "nat \<Rightarrow> nat \<Rightarrow> iface \<Rightarrow> string \<Rightarrow> string list" where
  "StringLenBetween lo hi i k =
     (case i of
        StringVal v \<Rightarrow>
          if length v < lo \<or> length v > hi
          then [''expected length of '' @ k @ '' to be in the range ('' @ Itoa (int lo)
                 @ '' - '' @ Itoa (int hi) @ ''), got '' @ v]
          else []
      | _ \<Rightarrow> [''expected type of '' @ k @ '' to be string''])"

definition StringInSlice :: "string list \<Rightarrow> iface \<Rightarrow> string \<Rightarrow> string list" where
  "StringInSlice valid i k =
     (case i of
        StringVal v \<Rightarrow>
          if list_ex (\<lambda>str. v = str) valid then []
          else [''expected '' @ k @ '' to be one of ['' @ Join valid '' '' @ ''], got '' @ v]
      | _ \<Rightarrow> [''expected type of '' @ k @ '' to be string''])"

definition StringMatch :: "rexp \<Rightarrow> string \<Rightarrow> iface \<Rightarrow> string \<Rightarrow> string list" where
  "StringMatch r message i k =
     (case i of
        StringVal v \<Rightarrow>
          if \<not> MatchString r v
          then [''invalid value for '' @ k @ '' ('' @ message @ '')'']
          else []
      | _ \<Rightarrow> [''expected type of '' @ k @ '' to be string''])"

definition IsPortNumber :: "iface \<Rightarrow> string \<Rightarrow> string list" where
  "IsPortNumber i k =
     (case i of
        IntVal v \<Rightarrow>
          if 1 > v \<or> v > 65535
          then [''expected '' @ Quote k @ '' to be a valid port number, got: '' @ Itoa v]
          else []
      | _ \<Rightarrow> [''expected type of '' @ Quote k @ '' to be integer''])"

definition IsURLWithHTTPorHTTPS :: "stdlib \<Rightarrow> iface \<Rightarrow> string \<Rightarrow> string list" where
  "IsURLWithHTTPorHTTPS L i k =
     (case i of
        StringVal v \<Rightarrow>
          if v = [] then [''expected '' @ Quote k @ '' url to not be empty, got '']
          else (case url_Parse L v of
                  Inl err \<Rightarrow>
                    [''expected '' @ Quote k @ '' to be a valid url, got '' @ v @ '': '' @ err]
                | Inr (scheme, host) \<Rightarrow>
                    if host = [] then [''expected '' @ Quote k @ '' to have a host, got '' @ v]
                    else if list_ex (\<lambda>s. scheme = s) [''http'', ''https''] then []
                    else [''expected '' @ Quote k @ '' to have a url with schema of: ''
                           @ Quote ''http,https'' @ '', got '' @ v])
      | _ \<Rightarrow> [''expected type of '' @ Quote k @ '' to be string''])"

text \<open>The \<open>ValidateFunc\<close> of \<open>resource\<close> in \<open>checkResource\<close>. After a host that is not
  valid the source goes on to the port, so both errors can be reported.\<close>

definition resource_ValidateFunc :: "stdlib \<Rightarrow> iface \<Rightarrow> string \<Rightarrow> string list" where
  "resource_ValidateFunc L i s =
     (case i of
        StringVal v \<Rightarrow>
          if HasPrefix v ''tcp://''
          then (let rc = Split (drop 6 v) (CHR '':'')
                in if length rc \<noteq> 2
                   then [''expected '' @ Quote s @ '' tcp resource to contain host and port components'']
                   else (let errors =
                               (if \<not> isHost (rc ! 0)
                                then [''expected '' @ Quote s @ '' tcp resource to contain a valid host'']
                                else [])
                         in case Atoi (rc ! 1) of
                              None \<Rightarrow>
                                errors @ [''expected '' @ Quote s @ '' tcp resource to contain a port number'']
                            | Some port \<Rightarrow>
                                if length (IsPortNumber (IntVal port) s) > 0
                                then errors @ [''expected '' @ Quote s @ '' tcp resource to contain a valid port number'']
                                else errors))
          else if HasPrefix v ''http''
          then IsURLWithHTTPorHTTPS L (StringVal v) s
          else [''expected '' @ Quote s @ '' to be either TCP or HTTP(S) resource'']
      | _ \<Rightarrow> [''expected type of '' @ Quote s @ '' to be string''])"

text \<open>The \<open>ValidateFunc\<close> of one element of \<open>regions\<close>.\<close>

definition regions_ValidateFunc :: "iface \<Rightarrow> string \<Rightarrow> string list" where
  "regions_ValidateFunc i s =
     (case i of
        StringVal v \<Rightarrow>
          if \<not> stringInSlice v supportedRegions
          then [''expected '' @ Quote ''regions'' @ '' to be any of ''
                 @ Quote (Join supportedRegions '', '')]
          else []
      | _ \<Rightarrow> [''expected type of '' @ Quote s @ '' to be string''])"

definition name_ValidateFunc :: "iface \<Rightarrow> string \<Rightarrow> string list" where
  "name_ValidateFunc = StringLenBetween 0 25"

definition method_ValidateFunc :: "iface \<Rightarrow> string \<Rightarrow> string list" where
  "method_ValidateFunc = StringInSlice supportedHTTPMethods"

definition interval_ValidateFunc :: "iface \<Rightarrow> string \<Rightarrow> string list" where
  "interval_ValidateFunc = IntBetween 5 900"

definition target_ValidateFunc :: "stdlib \<Rightarrow> iface \<Rightarrow> string \<Rightarrow> string list" where
  "target_ValidateFunc L = FloatBetween L (1 / 100) 10"

definition up_codes_ValidateFunc :: "iface \<Rightarrow> string \<Rightarrow> string list" where
  "up_codes_ValidateFunc =
     StringMatch validUpCodePattern
       (''up_codes must be of a format such as '' @ Quote ''200, 2xx, 200-302, 200,301'')"

definition up_confirmations_threshold_ValidateFunc :: "iface \<Rightarrow> string \<Rightarrow> string list" where
  "up_confirmations_threshold_ValidateFunc = IntBetween 1 10"

definition down_confirmations_threshold_ValidateFunc :: "iface \<Rightarrow> string \<Rightarrow> string list" where
  "down_confirmations_threshold_ValidateFunc = IntBetween 1 10"

section \<open>Resource data and payloads\<close>

text \<open>
  \<open>binocs.Check\<close> and \<open>binocs.Channel\<close> of the API client, with the fields the provider
  reads and writes. The zero value of a struct has empty strings, zeros and a nil slice.
\<close>

record Check =
  Ident :: string
  Name :: string
  Resource :: string
  Protocol :: string
  Method :: string
  Interval :: int
  Target :: real
  Regions :: "string list"
  UpCodes :: string
  UpConfirmationsThreshold :: int
  DownConfirmationsThreshold :: int

definition Check_zero :: Check where
  "Check_zero = \<lparr>Ident = [], Name = [], Resource = [], Protocol = [], Method = [],
     Interval = 0, Target = 0, Regions = [], UpCodes = [], UpConfirmationsThreshold = 0,
     DownConfirmationsThreshold = 0\<rparr>"

record Channel =
  Channel_Ident :: string
  Channel_Type :: string
  Handle :: string
  Alias :: string
  Checks :: "string list"

definition Channel_zero :: Channel where
  "Channel_zero = \<lparr>Channel_Ident = [], Channel_Type = [], Handle = [], Alias = [],
     Checks = []\<rparr>"

text \<open>
  \<open>*schema.ResourceData\<close> under the schema of \<open>checkResource\<close>: the identifier and one
  typed field per key, \<open>None\<close> when the key has no value. A \<open>schema.Set\<close> of strings is a
  list without duplicates, in the order \<open>List()\<close> gives; two strings are one element
  when they are equal, the hash that keys the set being taken as injective.
\<close>

record CheckData =
  d_Id :: string
  d_name :: "string option"
  d_resource :: "string option"
  d_method :: "string option"
  d_interval :: "int option"
  d_target :: "real option"
  d_regions :: "string dlist option"
  d_up_codes :: "string option"
  d_up_confirmations_threshold :: "int option"
  d_down_confirmations_threshold :: "int option"

text \<open>\<open>*schema.ResourceData\<close> under the schema of \<open>channelResource\<close>. \<open>GetChange\<close> of
  \<open>checks\<close> gives the value of the prior state and the new one.\<close>

record ChannelData =
  cd_Id :: string
  cd_type :: "string option"
  cd_handle :: "string option"
  cd_alias :: "string option"
  cd_checks :: "string dlist option"
  cd_checks_old :: "string dlist option"

text \<open>\<open>d.GetOk(key)\<close>: the value, and whether the key is set to a value that is not the
  zero value of its type.\<close>

definition GetOk_string :: "string option \<Rightarrow> string \<times> bool" where
  "GetOk_string f = (case f of None \<Rightarrow> ([], False) | Some v \<Rightarrow> (v, v \<noteq> []))"

definition GetOk_int :: "int option \<Rightarrow> int \<times> bool" where
  "GetOk_int f = (case f of None \<Rightarrow> (0, False) | Some v \<Rightarrow> (v, v \<noteq> 0))"

definition GetOk_float :: "real option \<Rightarrow> real \<times> bool" where
  "GetOk_float f = (case f of None \<Rightarrow> (0, False) | Some v \<Rightarrow> (v, v \<noteq> 0))"

definition GetOk_set :: "string dlist option \<Rightarrow> string dlist \<times> bool" where
  "GetOk_set f =
     (case f of None \<Rightarrow> (Dlist.empty, False) | Some v \<Rightarrow> (v, list_of_dlist v \<noteq> []))"

section \<open>\<open>constructCheckPayload\<close>\<close>

text \<open>The protocol is the upper-cased piece of the resource before its first colon.\<close>

definition deriveProtocol :: "stdlib \<Rightarrow> string \<Rightarrow> string" where
  "deriveProtocol L v = ToUpper L (hd (Split v (CHR '':'')))"

text \<open>
  The function returns the payload and an error, \<open>None\<close> for \<open>nil\<close>. It is cut at its
  two protocol tests: \<open>payload_start\<close> sets name, resource and protocol,
  \<open>payload_middle\<close> interval, target and regions, \<open>payload_end\<close> the two thresholds.
\<close>

definition payload_start :: "stdlib \<Rightarrow> CheckData \<Rightarrow> Check" where
  "payload_start L d =
     (let payload = Check_zero;
          payload = (case GetOk_string (d_name d) of
                       (v, ok) \<Rightarrow> if ok then payload\<lparr>Name := v\<rparr> else payload)
      in case GetOk_string (d_resource d) of
           (v, ok) \<Rightarrow>
             if ok then payload\<lparr>Resource := v, Protocol := deriveProtocol L v\<rparr>
             else payload)"

definition payload_middle :: "CheckData \<Rightarrow> Check \<Rightarrow> Check" where
  "payload_middle d payload =
     (let payload = (case GetOk_int (d_interval d) of
                       (v, ok) \<Rightarrow> if ok then payload\<lparr>Interval := v\<rparr> else payload);
          payload = (case GetOk_float (d_target d) of
                       (v, ok) \<Rightarrow> if ok then payload\<lparr>Target := v\<rparr> else payload)
      in case GetOk_set (d_regions d) of
           (v, ok) \<Rightarrow> if ok then payload\<lparr>Regions := list_of_dlist v\<rparr> else payload)"

definition payload_end :: "CheckData \<Rightarrow> Check \<Rightarrow> Check" where
  "payload_end d payload =
     (let payload = (case GetOk_int (d_up_confirmations_threshold d) of
                       (v, ok) \<Rightarrow>
                         if ok then payload\<lparr>UpConfirmationsThreshold := v\<rparr> else payload)
      in case GetOk_int (d_down_confirmations_threshold d) of
           (v, ok) \<Rightarrow> if ok then payload\<lparr>DownConfirmationsThreshold := v\<rparr> else payload)"

definition payload_up_codes :: "CheckData \<Rightarrow> Check \<Rightarrow> Check \<times> string option" where
  "payload_up_codes d payload =
     (if Protocol payload = protocolHTTP \<or> Protocol payload = protocolHTTPS
      then (case GetOk_string (d_up_codes d) of
              (v, ok) \<Rightarrow>
                if ok then (payload_end d (payload\<lparr>UpCodes := v\<rparr>), None)
                else (payload, Some (''expected '' @ [dquote] @ ''up_codes'' @ [dquote]
                        @ '' to be set for a '' @ Protocol payload @ '' resource'')))
      else (case GetOk_string (d_up_codes d) of
              (v, ok) \<Rightarrow>
                if ok then (payload, Some ([dquote] @ ''up_codes'' @ [dquote]
                        @ '' cannot be used with a '' @ Protocol payload @ '' resource''))
                else (payload_end d payload, None)))"

definition constructCheckPayload :: "stdlib \<Rightarrow> CheckData \<Rightarrow> Check \<times> string option" where
  "constructCheckPayload L d =
     (let payload = payload_start L d
      in if Protocol payload = protocolHTTP \<or> Protocol payload = protocolHTTPS
         then (case GetOk_string (d_method d) of
                 (v, ok) \<Rightarrow>
                   if ok then payload_up_codes d (payload_middle d (payload\<lparr>Method := v\<rparr>))
                   else (payload, Some (''expected '' @ [dquote] @ ''method'' @ [dquote]
                           @ '' to be one of '' @ Join supportedHTTPMethods '', '' @ '' for a ''
                           @ Protocol payload @ '' resource'')))
         else (case GetOk_string (d_method d) of
                 (v, ok) \<Rightarrow>
                   if ok then (payload, Some ([dquote] @ ''method'' @ [dquote]
                           @ '' cannot be used with a '' @ Protocol payload @ '' resource''))
                   else payload_up_codes d (payload_middle d payload)))"

definition constructChannelPayload :: "ChannelData \<Rightarrow> Channel \<times> string option" where
  "constructChannelPayload d =
     (let payload = Channel_zero;
          payload = (case GetOk_string (cd_type d) of
                       (v, ok) \<Rightarrow> if ok then payload\<lparr>Channel_Type := v\<rparr> else payload);
          payload = (case GetOk_string (cd_handle d) of
                       (v, ok) \<Rightarrow> if ok then payload\<lparr>Handle := v\<rparr> else payload);
          payload = (case GetOk_string (cd_alias d) of
                       (v, ok) \<Rightarrow> if ok then payload\<lparr>Alias := v\<rparr> else payload)
      in (payload, None))"

text \<open>
  A field set is validated when every key that has a value passes the \<open>ValidateFunc\<close> of
  its schema, the required keys \<open>resource\<close> and \<open>regions\<close> have one, and \<open>regions\<close> has
  at least \<open>MinItems\<close> elements.
\<close>

definition validated :: "stdlib \<Rightarrow> CheckData \<Rightarrow> bool" where
  "validated L d =
     ((case d_name d of None \<Rightarrow> True | Some v \<Rightarrow> name_ValidateFunc (StringVal v) ''name'' = [])
      \<and> (case d_resource d of None \<Rightarrow> False
          | Some v \<Rightarrow> resource_ValidateFunc L (StringVal v) ''resource'' = [])
      \<and> (case d_method d of None \<Rightarrow> True
          | Some v \<Rightarrow> method_ValidateFunc (StringVal v) ''method'' = [])
      \<and> (case d_interval d of None \<Rightarrow> True
          | Some v \<Rightarrow> interval_ValidateFunc (IntVal v) ''interval'' = [])
      \<and> (case d_target d of None \<Rightarrow> True
          | Some v \<Rightarrow> target_ValidateFunc L (FloatVal v) ''target'' = [])
      \<and> (case d_regions d of None \<Rightarrow> False
          | Some v \<Rightarrow> length (list_of_dlist v) \<ge> 1
              \<and> list_all (\<lambda>r. regions_ValidateFunc (StringVal r) ''regions'' = [])
                   (list_of_dlist v))
      \<and> (case d_up_codes d of None \<Rightarrow> True
          | Some v \<Rightarrow> up_codes_ValidateFunc (StringVal v) ''up_codes'' = [])
      \<and> (case d_up_confirmations_threshold d of None \<Rightarrow> True
          | Some v \<Rightarrow> up_confirmations_threshold_ValidateFunc (IntVal v)
              ''up_confirmations_threshold'' = [])
      \<and> (case d_down_confirmations_threshold d of None \<Rightarrow> True
          | Some v \<Rightarrow> down_confirmations_threshold_ValidateFunc (IntVal v)
              ''down_confirmations_threshold'' = []))"

section \<open>The remote client and the operations of the two resources\<close>

text \<open>
  The API client is outside the provider. Each of its methods is a function of the
  calls made so far and of its arguments, so an answer may depend on everything that
  went before; an error is its message. The operations thread the list of calls.
\<close>

datatype call =
    ChecksCreate Check | ChecksRead string | ChecksUpdate string Check | ChecksDelete string
  | ChannelsCreate Channel | ChannelsRead string | ChannelsUpdate string Channel
  | ChannelsDelete string | ChannelsAttach string string | ChannelsDetach string string

record Client =
  Checks_Create :: "call list \<Rightarrow> Check \<Rightarrow> string + Check"
  Checks_Read :: "call list \<Rightarrow> string \<Rightarrow> string + Check"
  Checks_Update :: "call list \<Rightarrow> string \<Rightarrow> Check \<Rightarrow> string option"
  Checks_Delete :: "call list \<Rightarrow> string \<Rightarrow> string option"
  Channels_Create :: "call list \<Rightarrow> Channel \<Rightarrow> string + Channel"
  Channels_Read :: "call list \<Rightarrow> string \<Rightarrow> string + Channel"
  Channels_Update :: "call list \<Rightarrow> string \<Rightarrow> Channel \<Rightarrow> string option"
  Channels_Delete :: "call list \<Rightarrow> string \<Rightarrow> string option"
  Channels_Attach :: "call list \<Rightarrow> string \<Rightarrow> string \<Rightarrow> string option"
  Channels_Detach :: "call list \<Rightarrow> string \<Rightarrow> string \<Rightarrow> string option"

text \<open>An operation returns the resource data as it leaves them, its error and the
  calls made. \<open>d.Set\<close> of a key of the schema with a value of its type does not fail.\<close>

definition checkRead :: "Client \<Rightarrow> CheckData \<Rightarrow> call list
    \<Rightarrow> CheckData \<times> string option \<times> call list" where
  "checkRead C d hist =
     (case Checks_Read C hist (d_Id d) of
        Inl err \<Rightarrow> (d, Some (''unable to read Binocs check: '' @ err), hist @ [ChecksRead (d_Id d)])
      | Inr check \<Rightarrow>
          (d\<lparr>d_name := Some (Name check),
             d_resource := Some (Resource check),
             d_method := Some (Method check),
             d_interval := Some (Interval check),
             d_target := Some (Target check),
             d_regions := Some (dlist_of_list (Regions check)),
             d_up_codes := Some (UpCodes check),
             d_up_confirmations_threshold := Some (UpConfirmationsThreshold check),
             d_down_confirmations_threshold := Some (DownConfirmationsThreshold check)\<rparr>,
           None, hist @ [ChecksRead (d_Id d)]))"

definition checkCreate :: "stdlib \<Rightarrow> Client \<Rightarrow> CheckData \<Rightarrow> call list
    \<Rightarrow> CheckData \<times> string option \<times> call list" where
  "checkCreate L C d hist =
     (case constructCheckPayload L d of
        (payload, Some err) \<Rightarrow> (d, Some err, hist)
      | (payload, None) \<Rightarrow>
          (case Checks_Create C hist payload of
             Inl err \<Rightarrow>
               (d, Some (''unable to create Binocs check: '' @ err), hist @ [ChecksCreate payload])
           | Inr check \<Rightarrow>
               checkRead C (d\<lparr>d_Id := Ident check\<rparr>) (hist @ [ChecksCreate payload])))"

text \<open>\<open>checkExists\<close> returns a boolean and an error.\<close>

definition checkExists :: "Client \<Rightarrow> CheckData \<Rightarrow> call list
    \<Rightarrow> CheckData \<times> (bool \<times> string option) \<times> call list" where
  "checkExists C d hist =
     (case checkRead C d hist of
        (d', err, hist') \<Rightarrow>
          (case err of
             Some e \<Rightarrow>
               if Contains e ''404'' then (d'\<lparr>d_Id := []\<rparr>, (False, None), hist')
               else (d', (False, Some e), hist')
           | None \<Rightarrow> (d', (True, None), hist')))"

definition checkUpdate :: "stdlib \<Rightarrow> Client \<Rightarrow> CheckData \<Rightarrow> call list
    \<Rightarrow> CheckData \<times> string option \<times> call list" where
  "checkUpdate L C d hist =
     (case constructCheckPayload L d of
        (payload, Some err) \<Rightarrow> (d, Some err, hist)
      | (payload, None) \<Rightarrow>
          (case Checks_Update C hist (d_Id d) payload of
             Some err \<Rightarrow>
               (d, Some (''unable to update Binocs check: '' @ err),
                hist @ [ChecksUpdate (d_Id d) payload])
           | None \<Rightarrow> (d, None, hist @ [ChecksUpdate (d_Id d) payload])))"

definition checkDelete :: "Client \<Rightarrow> CheckData \<Rightarrow> call list
    \<Rightarrow> CheckData \<times> string option \<times> call list" where
  "checkDelete C d hist =
     (case Checks_Delete C hist (d_Id d) of
        Some err \<Rightarrow>
          (d, Some (''unable to remove Binocs check: '' @ err), hist @ [ChecksDelete (d_Id d)])
      | None \<Rightarrow> (d, None, hist @ [ChecksDelete (d_Id d)]))"

definition channelRead :: "Client \<Rightarrow> ChannelData \<Rightarrow> call list
    \<Rightarrow> ChannelData \<times> string option \<times> call list" where
  "channelRead C d hist =
     (case Channels_Read C hist (cd_Id d) of
        Inl err \<Rightarrow>
          (d, Some (''unable to read Binocs channel: '' @ err), hist @ [ChannelsRead (cd_Id d)])
      | Inr channel \<Rightarrow>
          (d\<lparr>cd_type := Some (Channel_Type channel),
             cd_handle := Some (Handle channel),
             cd_alias := Some (Alias channel),
             cd_checks := Some (dlist_of_list (Checks channel))\<rparr>,
           None, hist @ [ChannelsRead (cd_Id d)]))"

text \<open>The loops over the checks to attach and to detach stop at the first error.\<close>

fun attachLoop :: "Client \<Rightarrow> string \<Rightarrow> string list \<Rightarrow> call list
    \<Rightarrow> string option \<times> call list" where
  "attachLoop C ident [] hist = (None, hist)"
| "attachLoop C ident (a # as) hist =
     (case Channels_Attach C hist ident a of
        Some err \<Rightarrow>
          (Some (''unable to attach Binocs channel '' @ Quote ident @ '' to check '' @ Quote a
                   @ '': '' @ err),
           hist @ [ChannelsAttach ident a])
      | None \<Rightarrow> attachLoop C ident as (hist @ [ChannelsAttach ident a]))"


definition channelCreate :: "Client \<Rightarrow> ChannelData \<Rightarrow> call list
    \<Rightarrow> ChannelData \<times> string option \<times> call list" where
  "channelCreate C d hist =
     (case constructChannelPayload d of
        (payload, Some err) \<Rightarrow> (d, Some err, hist)
      | (payload, None) \<Rightarrow>
          (case Channels_Create C hist payload of
             Inl err \<Rightarrow>
               (d, Some (''unable to create Binocs channel: '' @ err),
                hist @ [ChannelsCreate payload])
           | Inr channel \<Rightarrow>
               (let d1 = d\<lparr>cd_Id := Channel_Ident channel\<rparr>;
                    hist1 = hist @ [ChannelsCreate payload]
                in case GetOk_set (cd_checks d1) of
                     (v, ok) \<Rightarrow>
                       if ok
                       then (case attachLoop C (Channel_Ident channel) (list_of_dlist v) hist1 of
                               (Some err, hist2) \<Rightarrow> (d1, Some err, hist2)
                             | (None, hist2) \<Rightarrow> channelRead C d1 hist2)
                       else channelRead C d1 hist1)))"

definition channelExists :: "Client \<Rightarrow> ChannelData \<Rightarrow> call list
    \<Rightarrow> ChannelData \<times> (bool \<times> string option) \<times> call list" where
  "channelExists C d hist =
     (case channelRead C d hist of
        (d', err, hist') \<Rightarrow>
          (case err of
             Some e \<Rightarrow>
               if Contains e ''404'' then (d'\<lparr>cd_Id := []\<rparr>, (False, None), hist')
               else (d', (False, Some e), hist')
           | None \<Rightarrow> (d', (True, None), hist')))"





definition channelDelete :: "Client \<Rightarrow> ChannelData \<Rightarrow> call list
    \<Rightarrow> ChannelData \<times> string option \<times> call list" where
  "channelDelete C d hist =
     (case Channels_Delete C hist (cd_Id d) of
        Some err \<Rightarrow>
          (d, Some (''unable to remove Binocs channel: '' @ err), hist @ [ChannelsDelete (cd_Id d)])
      | None \<Rightarrow> (d, None, hist @ [ChannelsDelete (cd_Id d)]))"

section \<open>The grammar of \<open>up_codes\<close> as the specification words it\<close>

text \<open>
  These definitions follow the specification, not the source: a value is a
  comma-separated list of entries; an entry is an exact three-digit status code, a
  wildcard such as \<open>2xx\<close> or \<open>20x\<close>, or a range \<open>NNN-NNN\<close> of two such codes; the
  hundreds digit of every code is one of 1 to 5. They are compared with the pattern below.
\<close>

definition hundreds :: "char \<Rightarrow> bool" where
  "hundreds c = between (CHR ''1'') (CHR ''5'') c"

definition spec_exact_code :: "string \<Rightarrow> bool" where
  "spec_exact_code e = (length e = 3 \<and> hundreds (e ! 0) \<and> isDigit (e ! 1) \<and> isDigit (e ! 2))"

definition spec_wildcard :: "string \<Rightarrow> bool" where
  "spec_wildcard e =
     (length e = 3 \<and> hundreds (e ! 0)
      \<and> ((isDigit (e ! 1) \<and> e ! 2 = CHR ''x'') \<or> (e ! 1 = CHR ''x'' \<and> e ! 2 = CHR ''x'')))"

definition spec_code_range :: "string \<Rightarrow> bool" where
  "spec_code_range e =
     (length e = 7 \<and> spec_exact_code (take 3 e) \<and> e ! 3 = CHR ''-'' \<and> spec_exact_code (drop 4 e))"

definition spec_up_code_entry :: "string \<Rightarrow> bool" where
  "spec_up_code_entry e = (spec_exact_code e \<or> spec_wildcard e \<or> spec_code_range e)"

definition spec_up_codes :: "string \<Rightarrow> bool" where
  "spec_up_codes s = list_all spec_up_code_entry (Split s (CHR '',''))"

text \<open>The characters \<open>getScheme\<close> lets through before the colon.\<close>

definition schemeChar :: "char \<Rightarrow> bool" where
  "schemeChar c = (isLower c \<or> isUpper c \<or> isDigit c \<or> c = CHR ''+'' \<or> c = CHR ''-'' \<or> c = CHR ''.'')"

section \<open>Instances of the parameters, for evaluating the model on examples\<close>

text \<open>
  \<open>plainLib\<close> maps no character outside ASCII and takes the host of a URL to be the
  text between \<open>//\<close> and the next \<open>/\<close>. \<open>failingClient msg\<close> answers every call with the
  error \<open>msg\<close>; \<open>echoClient\<close> answers every call with success, a create with the payload
  under the identifier \<open>id-1\<close>, a read with an empty entity.
\<close>

definition plainLib :: stdlib where
  "plainLib =
     \<lparr>unicode_ToUpper = map upperByte,
      url_rest = (\<lambda>raw scheme rest frag. Inr (takeWhile (\<lambda>c. c \<noteq> CHR ''/'') (drop 2 rest))),
      fmt_f = (\<lambda>x. ''?'')\<rparr>"

definition failingClient :: "string \<Rightarrow> Client" where
  "failingClient msg =
     \<lparr>Checks_Create = (\<lambda>h p. Inl msg), Checks_Read = (\<lambda>h i. Inl msg),
      Checks_Update = (\<lambda>h i p. Some msg), Checks_Delete = (\<lambda>h i. Some msg),
      Channels_Create = (\<lambda>h p. Inl msg), Channels_Read = (\<lambda>h i. Inl msg),
      Channels_Update = (\<lambda>h i p. Some msg), Channels_Delete = (\<lambda>h i. Some msg),
      Channels_Attach = (\<lambda>h i c. Some msg), Channels_Detach = (\<lambda>h i c. Some msg)\<rparr>"

definition echoClient :: Client where
  "echoClient =
     \<lparr>Checks_Create = (\<lambda>h p. Inr (p\<lparr>Ident := ''id-1''\<rparr>)),
      Checks_Read = (\<lambda>h i. Inr (Check_zero\<lparr>Ident := i\<rparr>)),
      Checks_Update = (\<lambda>h i p. None), Checks_Delete = (\<lambda>h i. None),
      Channels_Create = (\<lambda>h p. Inr (p\<lparr>Channel_Ident := ''id-1''\<rparr>)),
      Channels_Read = (\<lambda>h i. Inr (Channel_zero\<lparr>Channel_Ident := i\<rparr>)),
      Channels_Update = (\<lambda>h i p. None), Channels_Delete = (\<lambda>h i. None),
      Channels_Attach = (\<lambda>h i c. None), Channels_Detach = (\<lambda>h i c. None)\<rparr>"

definition exampleChannel :: ChannelData where
  "exampleChannel =
     \<lparr>cd_Id = ''ch-1'', cd_type = Some ''email'', cd_handle = Some ''ops@example.com'',
      cd_alias = None, cd_checks = Some (dlist_of_list [''B'', ''C'']),
      cd_checks_old = Some (dlist_of_list [''A'', ''B''])\<rparr>"

definition exampleTcpCheck :: CheckData where
  "exampleTcpCheck =
     \<lparr>d_Id = [], d_name = Some ''db'', d_resource = Some ''tcp://db.example.com:5432'',
      d_method = None, d_interval = Some 60, d_target = Some (12 / 10),
      d_regions = Some (dlist_of_list [''eu-west-1'', ''us-east-1'']), d_up_codes = None,
      d_up_confirmations_threshold = Some 2, d_down_confirmations_threshold = Some 2\<rparr>"

definition exampleHttpCheck :: CheckData where
  "exampleHttpCheck =
     \<lparr>d_Id = [], d_name = Some ''web'', d_resource = Some ''https://example.com/health'',
      d_method = Some ''GET'', d_interval = Some 60, d_target = Some (12 / 10),
      d_regions = Some (dlist_of_list [''eu-west-1'']), d_up_codes = Some ''200-302'',
      d_up_confirmations_threshold = Some 2, d_down_confirmations_threshold = Some 2\<rparr>"

text \<open>A host name of 259 characters: four labels of 63 characters and one of three. Without
  its four dots it has 255.\<close>

definition longHost :: string where
  "longHost = replicate 63 (CHR ''a'') @ ''.'' @ replicate 63 (CHR ''b'') @ ''.''
     @ replicate 63 (CHR ''c'') @ ''.'' @ replicate 63 (CHR ''d'') @ ''.eee''"

section \<open>Helper facts\<close>

lemma conc_One_right: "conc A {[]} = A"
  by (auto simp: conc_def)

lemma conc_One_left: "conc {[]} A = A"
  by (auto simp: conc_def)

lemma conc_empty_left: "conc {} A = {}"
  by (auto simp: conc_def)

lemma concI: "u \<in> A \<Longrightarrow> v \<in> B \<Longrightarrow> u @ v \<in> conc A B"
  by (auto simp: conc_def)

lemma nullable_iff: "nullable r \<longleftrightarrow> [] \<in> lang r"
  by (induction r) (auto simp: conc_def intro: star.star_nil)

lemma lang_nplus: "lang (nplus r s) = lang r \<union> lang s"
  by (cases "(r, s)" rule: nplus.cases) auto

lemma lang_ntimes: "lang (ntimes r s) = conc (lang r) (lang s)"
  by (cases "(r, s)" rule: ntimes.cases) (auto simp: conc_One_left conc_empty_left)

lemma conc_cons:
  "c # w \<in> conc A B \<longleftrightarrow>
     (\<exists>u v. w = u @ v \<and> c # u \<in> A \<and> v \<in> B) \<or> ([] \<in> A \<and> c # w \<in> B)"
proof
  assume "c # w \<in> conc A B"
  then obtain x y where xy: "c # w = x @ y" "x \<in> A" "y \<in> B"
    by (auto simp: conc_def)
  show "(\<exists>u v. w = u @ v \<and> c # u \<in> A \<and> v \<in> B) \<or> ([] \<in> A \<and> c # w \<in> B)"
  proof (cases x)
    case Nil
    with xy show ?thesis by simp
  next
    case (Cons a x')
    with xy have "w = x' @ y" "c # x' \<in> A" by simp_all
    with xy show ?thesis by blast
  qed
next
  assume "(\<exists>u v. w = u @ v \<and> c # u \<in> A \<and> v \<in> B) \<or> ([] \<in> A \<and> c # w \<in> B)"
  then show "c # w \<in> conc A B"
  proof
    assume "\<exists>u v. w = u @ v \<and> c # u \<in> A \<and> v \<in> B"
    then obtain u v where "w = u @ v" "c # u \<in> A" "v \<in> B" by blast
    then have "(c # u) @ v \<in> conc A B" by (intro concI)
    with \<open>w = u @ v\<close> show ?thesis by simp
  next
    assume "[] \<in> A \<and> c # w \<in> B"
    then have "[] @ (c # w) \<in> conc A B" by (intro concI) auto
    then show ?thesis by simp
  qed
qed

lemma star_cons_split:
  "x \<in> star A \<Longrightarrow> x = c # w \<Longrightarrow> \<exists>u v. w = u @ v \<and> c # u \<in> A \<and> v \<in> star A"
proof (induction arbitrary: w rule: star.induct)
  case star_nil
  then show ?case by simp
next
  case (star_app u v)
  show ?case
  proof (cases u)
    case Nil
    with star_app show ?thesis by simp
  next
    case (Cons a u')
    with star_app.prems have "w = u' @ v" "a = c" by simp_all
    with Cons star_app.hyps show ?thesis by blast
  qed
qed

lemma star_cons:
  "c # w \<in> star A \<longleftrightarrow> (\<exists>u v. w = u @ v \<and> c # u \<in> A \<and> v \<in> star A)"
proof
  assume "c # w \<in> star A"
  then show "\<exists>u v. w = u @ v \<and> c # u \<in> A \<and> v \<in> star A"
    by (rule star_cons_split) simp
next
  assume "\<exists>u v. w = u @ v \<and> c # u \<in> A \<and> v \<in> star A"
  then obtain u v where "w = u @ v" "c # u \<in> A" "v \<in> star A" by blast
  then have "(c # u) @ v \<in> star A" by (intro star.star_app)
  with \<open>w = u @ v\<close> show "c # w \<in> star A" by simp
qed

lemma conc_deriv:
  assumes "\<And>u. u \<in> A' \<longleftrightarrow> c # u \<in> A"
  shows "w \<in> conc A' B \<longleftrightarrow> (\<exists>u v. w = u @ v \<and> c # u \<in> A \<and> v \<in> B)"
  using assms by (auto simp: conc_def)

lemma lang_deriv: "w \<in> lang (deriv c r) \<longleftrightarrow> c # w \<in> lang r"
proof (induction r arbitrary: w)
  case (Times r s)
  have "w \<in> conc (lang (deriv c r)) (lang s)
      \<longleftrightarrow> (\<exists>u v. w = u @ v \<and> c # u \<in> lang r \<and> v \<in> lang s)"
    using Times.IH(1) by (rule conc_deriv)
  then show ?case
    using Times.IH(2) by (simp add: lang_nplus lang_ntimes conc_cons nullable_iff)
next
  case (Star r)
  have "w \<in> conc (lang (deriv c r)) (star (lang r))
      \<longleftrightarrow> (\<exists>u v. w = u @ v \<and> c # u \<in> lang r \<and> v \<in> star (lang r))"
    using Star.IH by (rule conc_deriv)
  then show ?case
    by (simp add: lang_ntimes star_cons)
qed (auto simp: lang_nplus)

lemma matches_lang: "matches r w \<longleftrightarrow> w \<in> lang r"
  by (induction w arbitrary: r) (simp_all add: nullable_iff lang_deriv)


lemma byte_eq_iff: "byte a = byte b \<longleftrightarrow> a = b"
  by (simp add: byte_def)

lemma between_same: "between c c x \<longleftrightarrow> x = c"
  by (auto simp: between_def byte_eq_iff [symmetric])

lemma conc_single:
  "w \<in> conc {[c] |c. P c} B \<longleftrightarrow> (\<exists>c t. w = c # t \<and> P c \<and> t \<in> B)"
proof
  assume "w \<in> conc {[c] |c. P c} B"
  then show "\<exists>c t. w = c # t \<and> P c \<and> t \<in> B"
    by (auto simp: conc_def)
next
  assume "\<exists>c t. w = c # t \<and> P c \<and> t \<in> B"
  then obtain c t where "w = c # t" "P c" "t \<in> B" by blast
  then have "[c] @ t \<in> conc {[c] |c. P c} B" by (intro concI) auto
  with \<open>w = c # t\<close> show "w \<in> conc {[c] |c. P c} B" by simp
qed

lemma conc_single1: "w \<in> conc {[c]} B \<longleftrightarrow> (\<exists>t. w = c # t \<and> t \<in> B)"
  using conc_single [of w "\<lambda>x. x = c" B] by simp

lemma conc_assoc: "conc (conc A B) C = conc A (conc B C)"
proof (rule set_eqI)
  fix w
  show "w \<in> conc (conc A B) C \<longleftrightarrow> w \<in> conc A (conc B C)"
  proof
    assume "w \<in> conc (conc A B) C"
    then obtain a b c where "w = (a @ b) @ c" "a \<in> A" "b \<in> B" "c \<in> C"
      by (auto simp: conc_def)
    then have "a @ (b @ c) \<in> conc A (conc B C)" by (intro concI)
    with \<open>w = (a @ b) @ c\<close> show "w \<in> conc A (conc B C)" by simp
  next
    assume "w \<in> conc A (conc B C)"
    then obtain a b c where "w = a @ (b @ c)" "a \<in> A" "b \<in> B" "c \<in> C"
      by (auto simp: conc_def)
    then have "(a @ b) @ c \<in> conc (conc A B) C" by (intro concI)
    with \<open>w = a @ (b @ c)\<close> show "w \<in> conc (conc A B) C" by simp
  qed
qed

lemma lang_rep_1_1: "lang (rep r (Suc 0) (Suc 0)) = lang r"
  by (simp add: rep_def conc_One_right)

lemma lang_rep_2_2: "lang (rep r 2 2) = conc (lang r) (lang r)"
  by (simp add: rep_def numeral_2_eq_2 conc_One_right)

lemma len3: "length e = 3 \<longleftrightarrow> (\<exists>a b c. e = [a, b, c])"
  by (auto simp: length_Suc_conv numeral_3_eq_3)

lemma len7: "length e = 7 \<longleftrightarrow> (\<exists>a b c d f g h. e = [a, b, c, d, f, g, h])"
  by (auto simp: length_Suc_conv eval_nat_numeral)

lemma entry_shape:
  "spec_up_code_entry e \<longleftrightarrow>
     (\<exists>a b c. e = [a, b, c] \<and> hundreds a
        \<and> ((isDigit b \<and> (isDigit c \<or> c = CHR ''x'')) \<or> (b = CHR ''x'' \<and> c = CHR ''x'')))
     \<or> (\<exists>a b c a' b' c'. e = [a, b, c, CHR ''-'', a', b', c'] \<and> hundreds a \<and> isDigit b
        \<and> isDigit c \<and> hundreds a' \<and> isDigit b' \<and> isDigit c')"
  unfolding spec_up_code_entry_def spec_exact_code_def spec_wildcard_def spec_code_range_def
    len3 len7
  by (auto simp: numeral_3_eq_3)

lemma entry_lang_shape:
  "e \<in> lang upCodeEntry \<longleftrightarrow>
     (\<exists>a b c. e = [a, b, c] \<and> hundreds a
        \<and> ((isDigit b \<and> (isDigit c \<or> c = CHR ''x'')) \<or> (b = CHR ''x'' \<and> c = CHR ''x'')))
     \<or> (\<exists>a b c a' b' c'. e = [a, b, c, CHR ''-'', a', b', c'] \<and> hundreds a \<and> isDigit b
        \<and> isDigit c \<and> hundreds a' \<and> isDigit b' \<and> isDigit c')"
  apply (simp add: upCodeEntry_def lang_rep_1_1 lang_rep_2_2 c15_def c09_def Chr_def
      conc_assoc conc_single conc_single1 hundreds_def isDigit_def between_same)
  apply (rule iffI)
   apply (elim disjE exE conjE; simp)
  apply (elim disjE exE conjE; simp)
  done

lemma entry_lang: "e \<in> lang upCodeEntry \<longleftrightarrow> spec_up_code_entry e"
  unfolding entry_shape entry_lang_shape ..


lemma Split_nonempty: "Split s c \<noteq> []"
  by (induction s) (auto split: list.splits)

lemma Split_append_nosep:
  "c \<notin> set e \<Longrightarrow> Split (e @ t) c = (e @ hd (Split t c)) # tl (Split t c)"
  by (induction e) (auto simp: Split_nonempty split: list.splits)

lemma Split_nosep: "c \<notin> set e \<Longrightarrow> Split e c = [e]"
  using Split_append_nosep [of c e "[]"] by simp

lemma Split_sep: "c \<notin> set e \<Longrightarrow> Split (e @ c # t) c = e # Split t c"
  using Split_append_nosep [of c e "c # t"] by simp

lemma Join_Split: "Join (Split s c) [c] = s"
proof (induction s)
  case Nil
  then show ?case by simp
next
  case (Cons x xs)
  obtain y ys where S: "Split xs c = y # ys"
    using Split_nonempty [of xs c] by (cases "Split xs c") auto
  show ?case
  proof (cases ys)
    case Nil
    with S Cons show ?thesis by auto
  next
    case (Cons z zs)
    with S Cons.IH show ?thesis by auto
  qed
qed

lemma lang_Chr: "lang (Chr c) = {[c]}"
  by (auto simp: Chr_def between_same)

lemma star_sep_forward:
  assumes "w \<in> star (conc {[sep]} E)" and "\<forall>e\<in>E. sep \<notin> set e" and "sep \<notin> set e0"
  shows "list_all (\<lambda>e. e \<in> E) (Split (e0 @ w) sep) \<longleftrightarrow> e0 \<in> E"
  using assms
proof (induction arbitrary: e0 rule: star.induct)
  case star_nil
  then show ?case by (simp add: Split_nosep)
next
  case (star_app u v)
  from star_app.hyps(1) obtain e1 where u: "u = sep # e1" and e1: "e1 \<in> E"
    by (auto simp: conc_single1)
  from e1 star_app.prems have "sep \<notin> set e1" by blast
  with star_app.IH star_app.prems have "list_all (\<lambda>e. e \<in> E) (Split (e1 @ v) sep) \<longleftrightarrow> e1 \<in> E"
    by blast
  moreover have "Split (e0 @ u @ v) sep = e0 # Split (e1 @ v) sep"
    using Split_sep [of sep e0 "e1 @ v"] star_app.prems u by simp
  ultimately show ?case using e1 by simp
qed

lemma join_in_lang:
  "es \<noteq> [] \<Longrightarrow> list_all (\<lambda>e. e \<in> E) es
    \<Longrightarrow> Join es [sep] \<in> conc E (star (conc {[sep]} E))"
proof (induction es "[sep]" rule: Join.induct)
  case 1
  then show ?case by simp
next
  case (2 x)
  then have "x @ [] \<in> conc E (star (conc {[sep]} E))"
    by (intro concI star.star_nil) simp
  then show ?case by simp
next
  case (3 x y ys)
  then have "Join (y # ys) [sep] \<in> conc E (star (conc {[sep]} E))" by simp
  then obtain e w where ew: "Join (y # ys) [sep] = e @ w" "e \<in> E" "w \<in> star (conc {[sep]} E)"
    by (auto simp: conc_def)
  have "sep # e \<in> conc {[sep]} E" using ew(2) by (simp add: conc_single1)
  then have "(sep # e) @ w \<in> star (conc {[sep]} E)" using ew(3) by (rule star.star_app)
  moreover have "x \<in> E" using "3.prems" by simp
  ultimately have "x @ ((sep # e) @ w) \<in> conc E (star (conc {[sep]} E))" by (intro concI)
  then show ?case using ew(1) by simp
qed

lemma sep_list_lang:
  assumes "\<forall>e\<in>E. sep \<notin> set e"
  shows "s \<in> conc E (star (conc {[sep]} E)) \<longleftrightarrow> list_all (\<lambda>e. e \<in> E) (Split s sep)"
proof
  assume "s \<in> conc E (star (conc {[sep]} E))"
  then obtain e w where "s = e @ w" "e \<in> E" "w \<in> star (conc {[sep]} E)"
    by (auto simp: conc_def)
  with assms star_sep_forward [of w sep E e] show "list_all (\<lambda>e. e \<in> E) (Split s sep)"
    by blast
next
  assume "list_all (\<lambda>e. e \<in> E) (Split s sep)"
  with join_in_lang [of "Split s sep" E sep] Split_nonempty [of s sep]
  show "s \<in> conc E (star (conc {[sep]} E))" by (simp add: Join_Split)
qed

lemma entry_no_comma: "spec_up_code_entry e \<Longrightarrow> CHR '','' \<notin> set e"
  unfolding entry_shape
  by (auto simp: hundreds_def isDigit_def between_def byte_def)

lemma up_codes_match_iff: "MatchString validUpCodePattern s \<longleftrightarrow> spec_up_codes s"
proof -
  have "\<forall>e\<in>lang upCodeEntry. CHR '','' \<notin> set e"
    by (simp add: entry_lang entry_no_comma)
  from sep_list_lang [OF this, of s]
  show ?thesis
    by (simp add: MatchString_def matches_lang validUpCodePattern_def lang_rep_1_1 lang_Chr
        spec_up_codes_def entry_lang)
qed

lemma stringInSlice_iff: "stringInSlice s xs \<longleftrightarrow> s \<in> set xs"
  by (induction xs) auto

lemma Quote_regions: "Quote ''regions'' = [dquote] @ ''regions'' @ [dquote]"
  by (simp add: Quote_def quoteByte_def dquote_def backslash_def byte_def)

lemma Quote_region_list:
  "Quote (Join supportedRegions '', '') = [dquote] @ ''af-south-1, ap-east-1, ap-northeast-1, ap-south-1, ap-southeast-1, ap-southeast-2, eu-central-1, eu-west-1, sa-east-1, us-east-1, us-west-1'' @ [dquote]"
  by (simp add: supportedRegions_def Quote_def quoteByte_def dquote_def backslash_def byte_def)

lemma Contains_skip_prefix:
  "sub \<noteq> [] \<Longrightarrow> hd sub \<notin> set p \<Longrightarrow> Contains (p @ e) sub = Contains e sub"
proof (induction p)
  case Nil
  then show ?case by simp
next
  case (Cons x p)
  then obtain y ys where sub: "sub = y # ys" "y \<noteq> x" by (cases sub) auto
  then have "\<not> HasPrefix (x # p @ e) sub" by (simp add: HasPrefix_def)
  with Cons show ?case by simp
qed

lemma Contains_404_check: "Contains (''unable to read Binocs check: '' @ e) ''404'' = Contains e ''404''"
  by (rule Contains_skip_prefix) simp_all

lemma Contains_404_channel: "Contains (''unable to read Binocs channel: '' @ e) ''404'' = Contains e ''404''"
  by (rule Contains_skip_prefix) simp_all






lemma example_tcp_payload: "snd (constructCheckPayload plainLib exampleTcpCheck) = None"
  by code_simp

lemma hd_Split: "hd (Split v c) = takeWhile (\<lambda>x. x \<noteq> c) v"
  by (induction v) (auto split: list.splits simp: Split_nonempty)

lemma HasPrefix_append: "HasPrefix v p \<Longrightarrow> v = p @ drop (length p) v"
  unfolding HasPrefix_def by (metis append_take_drop_id)

lemma tcp_piece: "HasPrefix v ''tcp://'' \<Longrightarrow> takeWhile (\<lambda>x. x \<noteq> CHR '':'') v = ''tcp''"
proof -
  assume "HasPrefix v ''tcp://''"
  then obtain r where "v = ''tcp://'' @ r" using HasPrefix_append by blast
  then show ?thesis by simp
qed

lemma lower_upper_byte:
  assumes "lowerByte c = l" and "isLower l"
  shows "isASCII c \<and> upperByte c = upperByte l"
proof (cases "isUpper c")
  case True
  then have b: "65 \<le> byte c" "byte c \<le> 90" by (simp_all add: isUpper_def between_def byte_def)
  with True assms(1) have l: "l = char_of (byte c + 32)" by (simp add: lowerByte_def)
  with b have bl: "byte l = byte c + 32" by (simp add: byte_def)
  from b have nl: "\<not> isLower c" by (simp add: isLower_def between_def byte_def)
  have "char_of (byte c) = c" by (simp add: byte_def)
  with bl nl assms(2) have "upperByte l = upperByte c" by (simp add: upperByte_def)
  with b show ?thesis by (simp add: isASCII_def)
next
  case False
  with assms(1) have "c = l" by (simp add: lowerByte_def)
  with assms(2) show ?thesis by (simp add: isASCII_def isLower_def between_def byte_def)
qed

lemma lower_upper_string:
  "map lowerByte s = t \<Longrightarrow> list_all isLower t
    \<Longrightarrow> list_all isASCII s \<and> map upperByte s = map upperByte t"
proof (induction s arbitrary: t)
  case Nil
  then show ?case by simp
next
  case (Cons c s)
  then obtain l t' where t: "t = l # t'" "lowerByte c = l" "map lowerByte s = t'" by auto
  with Cons.prems have "isLower l" "list_all isLower t'" by simp_all
  with t Cons.IH [of t'] lower_upper_byte [of c l] show ?case by simp
qed

lemma ToUpper_of_lower:
  assumes "map lowerByte s = t" and "list_all isLower t"
  shows "ToUpper L s = map upperByte t"
  using lower_upper_string [OF assms] by (simp add: ToUpper_def)

lemma schemeChar_colon: "schemeChar c \<Longrightarrow> c \<noteq> CHR '':'' \<and> c \<noteq> CHR ''#''"
  by (auto simp: schemeChar_def isLower_def isUpper_def isDigit_def between_def byte_def)

lemma getScheme_loop_shape:
  "getScheme_loop raw cs i = Inr (scm, rest) \<Longrightarrow> scm \<noteq> [] \<Longrightarrow> raw = pre @ cs
    \<Longrightarrow> length pre = i \<Longrightarrow> \<forall>c\<in>set pre. schemeChar c
    \<Longrightarrow> (\<exists>rest'. raw = scm @ CHR '':'' # rest') \<and> (\<forall>c\<in>set scm. schemeChar c)"
proof (induction cs arbitrary: pre i)
  case Nil
  then show ?case by simp
next
  case (Cons c cs)
  show ?case
  proof (cases "c = CHR '':''")
    case True
    then have nl: "\<not> isLower c" "\<not> isUpper c" "\<not> isDigit c"
      by (simp_all add: isLower_def isUpper_def isDigit_def between_def byte_def)
    with True Cons.prems have "scm = take i raw" "i \<noteq> 0"
      by (auto split: if_splits)
    with Cons.prems True show ?thesis by auto
  next
    case False
    with Cons.prems(1,2) have sc: "schemeChar c"
      and rec: "getScheme_loop raw cs (i + 1) = Inr (scm, rest)"
      by (auto simp: schemeChar_def split: if_splits)
    from Cons.prems sc have "raw = (pre @ [c]) @ cs" "length (pre @ [c]) = i + 1"
      "\<forall>x\<in>set (pre @ [c]). schemeChar x" by auto
    with Cons.IH [OF rec Cons.prems(2)] show ?thesis by blast
  qed
qed

lemma getScheme_shape:
  assumes "getScheme u = Inr (scm, rest)" and "scm \<noteq> []"
  shows "takeWhile (\<lambda>x. x \<noteq> CHR '':'') (u @ w) = scm \<and> CHR ''#'' \<notin> set scm
    \<and> (\<exists>rest'. u = scm @ CHR '':'' # rest')"
proof -
  from getScheme_loop_shape [of u u 0 scm rest "[]"] assms
  obtain rest' where u: "u = scm @ CHR '':'' # rest'" and sc: "\<forall>c\<in>set scm. schemeChar c"
    by (auto simp: getScheme_def)
  from sc have "\<forall>c\<in>set scm. c \<noteq> CHR '':''" "CHR ''#'' \<notin> set scm"
    using schemeChar_colon by blast+
  with u show ?thesis by (simp add: takeWhile_tail)
qed

lemma http_accepted_scheme:
  assumes "IsURLWithHTTPorHTTPS L (StringVal v) s = []"
  shows "\<exists>scm rest. getScheme (takeWhile (\<lambda>c. c \<noteq> CHR ''#'') v) = Inr (scm, rest)
    \<and> (map lowerByte scm = ''http'' \<or> map lowerByte scm = ''https'')"
  using assms
  by (auto simp: IsURLWithHTTPorHTTPS_def url_Parse_def Let_def
      split: if_splits sum.splits prod.splits)

lemma upper_http: "map upperByte ''http'' = ''HTTP''" "map upperByte ''https'' = ''HTTPS''"
  "map upperByte ''tcp'' = ''TCP''" "list_all isLower ''http''" "list_all isLower ''https''"
  "list_all isLower ''tcp''"
  by code_simp+

lemma validated_protocol:
  assumes "resource_ValidateFunc L (StringVal v) s = []"
  shows "v \<noteq> [] \<and> (if HasPrefix v ''tcp://'' then deriveProtocol L v = protocolTCP
     else deriveProtocol L v = protocolHTTP \<or> deriveProtocol L v = protocolHTTPS)"
proof (cases "HasPrefix v ''tcp://''")
  case True
  then have "takeWhile (\<lambda>x. x \<noteq> CHR '':'') v = ''tcp''" by (rule tcp_piece)
  moreover have "ToUpper L ''tcp'' = map upperByte ''tcp''"
    by (rule ToUpper_of_lower [of _ "''tcp''"]) (simp add: lowerByte_def isUpper_def between_def byte_def, rule upper_http)
  moreover from True have "v \<noteq> []" by (auto simp: HasPrefix_def)
  ultimately have "deriveProtocol L v = ''TCP''"
    by (simp only: deriveProtocol_def hd_Split upper_http)
  with True \<open>v \<noteq> []\<close> show ?thesis
    by (simp add: protocolTCP_def)
next
  case False
  with assms have acc: "IsURLWithHTTPorHTTPS L (StringVal v) s = []"
    by (simp add: resource_ValidateFunc_def split: if_splits)
  from acc have ne: "v \<noteq> []" by (auto simp: IsURLWithHTTPorHTTPS_def)
  let ?u = "takeWhile (\<lambda>c. c \<noteq> CHR ''#'') v"
  from http_accepted_scheme [OF acc] obtain scm rest where
    g: "getScheme ?u = Inr (scm, rest)"
    and l: "map lowerByte scm = ''http'' \<or> map lowerByte scm = ''https''"
    by (elim exE conjE)
  from l have "scm \<noteq> []" by auto
  from getScheme_shape [OF g this, of "dropWhile (\<lambda>c. c \<noteq> CHR ''#'') v"]
  have "takeWhile (\<lambda>x. x \<noteq> CHR '':'') v = scm" by simp
  then have d: "deriveProtocol L v = ToUpper L scm" by (simp add: deriveProtocol_def hd_Split)
  from l have "ToUpper L scm = ''HTTP'' \<or> ToUpper L scm = ''HTTPS''"
  proof
    assume "map lowerByte scm = ''http''"
    from ToUpper_of_lower [OF this upper_http(4)] have "ToUpper L scm = ''HTTP''"
      by (simp only: upper_http)
    then show ?thesis ..
  next
    assume "map lowerByte scm = ''https''"
    from ToUpper_of_lower [OF this upper_http(5)] have "ToUpper L scm = ''HTTPS''"
      by (simp only: upper_http)
    then show ?thesis ..
  qed
  with d ne False show ?thesis by (simp add: protocolHTTP_def protocolHTTPS_def)
qed

lemma construct_Protocol:
  "Protocol (fst (constructCheckPayload L d)) = Protocol (payload_start L d)"
  by (simp add: constructCheckPayload_def payload_up_codes_def payload_middle_def payload_end_def
      Let_def split: prod.splits)

lemma payload_start_Protocol:
  "d_resource d = Some v \<Longrightarrow> v \<noteq> [] \<Longrightarrow> Protocol (payload_start L d) = deriveProtocol L v"
  by (simp add: payload_start_def GetOk_string_def Let_def split: prod.splits)

lemma payload_middle_fields:
  "Protocol (payload_middle d p) = Protocol p \<and> Method (payload_middle d p) = Method p
   \<and> UpCodes (payload_middle d p) = UpCodes p"
  by (simp add: payload_middle_def Let_def split: prod.splits)

lemma payload_end_fields:
  "Protocol (payload_end d p) = Protocol p \<and> Method (payload_end d p) = Method p
   \<and> UpCodes (payload_end d p) = UpCodes p"
  by (simp add: payload_end_def Let_def split: prod.splits)

lemma payload_start_fields:
  "Method (payload_start L d) = [] \<and> UpCodes (payload_start L d) = []"
  by (simp add: payload_start_def Check_zero_def Let_def split: prod.splits)

lemma no_empty_up_codes: "\<not> MatchString validUpCodePattern []"
  by code_simp

lemma validated_fields:
  assumes "validated L d"
  shows "\<exists>v. d_resource d = Some v \<and> resource_ValidateFunc L (StringVal v) ''resource'' = []"
    and "d_method d \<noteq> Some []" and "d_up_codes d \<noteq> Some []"
proof -
  from assms show "\<exists>v. d_resource d = Some v \<and> resource_ValidateFunc L (StringVal v) ''resource'' = []"
    by (cases "d_resource d") (simp_all add: validated_def)
  from assms have "case d_method d of None \<Rightarrow> True
      | Some v \<Rightarrow> method_ValidateFunc (StringVal v) ''method'' = []"
    by (simp add: validated_def)
  then show "d_method d \<noteq> Some []"
    by (auto simp: method_ValidateFunc_def StringInSlice_def supportedHTTPMethods_def
        split: option.splits)
  from assms have "case d_up_codes d of None \<Rightarrow> True
      | Some v \<Rightarrow> up_codes_ValidateFunc (StringVal v) ''up_codes'' = []"
    by (simp add: validated_def)
  then show "d_up_codes d \<noteq> Some []"
    using no_empty_up_codes
    by (auto simp: up_codes_ValidateFunc_def StringMatch_def split: option.splits if_splits)
qed

lemma protocols_differ: "protocolTCP \<noteq> protocolHTTP" "protocolTCP \<noteq> protocolHTTPS"
  by (simp_all add: protocolTCP_def protocolHTTP_def protocolHTTPS_def)

lemma example_checks_validated:
  "validated plainLib exampleHttpCheck"
  "validated plainLib (exampleHttpCheck\<lparr>d_method := None\<rparr>)"
  "validated plainLib exampleTcpCheck"
  "validated plainLib (exampleTcpCheck\<lparr>d_up_codes := Some ''200''\<rparr>)"
  by code_simp+

lemma example_checks_protocol:
  "deriveProtocol plainLib ''https://example.com/health'' = protocolHTTPS"
  "deriveProtocol plainLib ''tcp://db.example.com:5432'' = protocolTCP"
  by code_simp+

lemma Split_pieces_nosep: "e \<in> set (Split x c) \<Longrightarrow> c \<notin> set e"
  by (induction x arbitrary: e) (auto split: list.splits if_splits)

lemma Split_two:
  "Split x c = [h, p] \<longleftrightarrow> x = h @ c # p \<and> c \<notin> set h \<and> c \<notin> set p"
proof
  assume s: "Split x c = [h, p]"
  then have "x = h @ c # p" using Join_Split [of x c] by simp
  moreover from s have "c \<notin> set h" "c \<notin> set p"
    using Split_pieces_nosep [of h x c] Split_pieces_nosep [of p x c] by simp_all
  ultimately show "x = h @ c # p \<and> c \<notin> set h \<and> c \<notin> set p" by simp
next
  assume "x = h @ c # p \<and> c \<notin> set h \<and> c \<notin> set p"
  then show "Split x c = [h, p]" by (simp add: Split_sep Split_nosep)
qed

lemma ParseIP_scan_nocolon:
  "CHR '':'' \<notin> set cs \<Longrightarrow>
     ParseIP_scan s cs = (if CHR ''.'' \<in> set cs
       then map_option (\<lambda>p. replicate 10 0 @ [255, 255] @ p) (parseIPv4 s) else None)"
  by (induction cs) auto

lemma parseIPv4_loop_dot:
  "parseIPv4_loop (Suc (Suc k)) h [] = Some y \<Longrightarrow> dtoi h = (n, c, ok)
    \<Longrightarrow> drop c h \<noteq> [] \<and> hd (drop c h) = CHR ''.''"
  by (auto simp: Let_def split: if_splits)

lemma parseIPv4_has_dot: "parseIPv4 h \<noteq> None \<Longrightarrow> CHR ''.'' \<in> set h"
proof -
  assume "parseIPv4 h \<noteq> None"
  then obtain y where "parseIPv4 h = Some y" by auto
  moreover have "(4::nat) = Suc (Suc 2)" by simp
  ultimately have a: "parseIPv4_loop (Suc (Suc 2)) h [] = Some y"
    by (simp only: parseIPv4_def)
  obtain n c ok where d: "dtoi h = (n, c, ok)" by (cases "dtoi h")
  from parseIPv4_loop_dot [OF a d] have "CHR ''.'' \<in> set (drop c h)" by (metis hd_in_set)
  then show ?thesis by (rule in_set_dropD)
qed

lemma isIP_nocolon:
  assumes "CHR '':'' \<notin> set h"
  shows "isIP h \<longleftrightarrow> parseIPv4 h \<noteq> None"
proof (cases "CHR ''.'' \<in> set h")
  case True
  with assms show ?thesis by (simp add: isIP_def ParseIP_def ParseIP_scan_nocolon)
next
  case False
  with parseIPv4_has_dot [of h] have "parseIPv4 h = None" by blast
  with assms False show ?thesis by (simp add: isIP_def ParseIP_def ParseIP_scan_nocolon)
qed

lemma len2: "length rc = 2 \<longleftrightarrow> (\<exists>h p. rc = [h, p])"
  by (auto simp: length_Suc_conv numeral_2_eq_2)

lemma tcp_accept_raw:
  assumes "HasPrefix v ''tcp://''"
  shows "resource_ValidateFunc L (StringVal v) s = [] \<longleftrightarrow>
    (\<exists>h p n. Split (drop 6 v) (CHR '':'') = [h, p] \<and> isHost h \<and> Atoi p = Some n
       \<and> 1 \<le> n \<and> n \<le> 65535)"
proof (cases "length (Split (drop 6 v) (CHR '':'')) = 2")
  case False
  with assms have "resource_ValidateFunc L (StringVal v) s \<noteq> []"
    by (simp add: resource_ValidateFunc_def Let_def)
  moreover from False have "\<not> (\<exists>h p. Split (drop 6 v) (CHR '':'') = [h, p])"
    by (simp add: len2)
  ultimately show ?thesis by simp
next
  case True
  then obtain h p where hp: "Split (drop 6 v) (CHR '':'') = [h, p]"
    unfolding len2 by (elim exE)
  with assms show ?thesis
    by (auto simp: resource_ValidateFunc_def Let_def IsPortNumber_def split: option.splits)
qed

lemma example_tcp_accepted:
  "resource_ValidateFunc plainLib (StringVal ''tcp://db.example.com:5432'') ''resource'' = []"
  "HasPrefix ''tcp://db.example.com:5432'' ''tcp://''"
  by code_simp+

lemma example_tcp_split:
  "Split (drop 6 ''tcp://db.example.com:5432'') (CHR '':'') = [''db.example.com'', ''5432'']"
  "\<not> isIP ''db.example.com''"
  by code_simp+

lemma longHost_length: "length longHost = 259"
  by (simp add: longHost_def)

section \<open>The interval field\<close>

text \<open>
  C9: for every integer value of the \<open>interval\<close> field, validation accepts the value if
  and only if it lies in the inclusive range from 5 to 900: 4 is rejected, 900 is
  accepted, 901 is rejected.
\<close>

theorem interval_accepted_iff_in_range:
  "(interval_ValidateFunc (IntVal v) k = [] \<longleftrightarrow> 5 \<le> v \<and> v \<le> 900)
   \<and> interval_ValidateFunc (IntVal 4) k \<noteq> []
   \<and> interval_ValidateFunc (IntVal 900) k = []
   \<and> interval_ValidateFunc (IntVal 901) k \<noteq> []"
  by (auto simp: interval_ValidateFunc_def IntBetween_def)

section \<open>The up_codes field\<close>

text \<open>
  C5: for every string, the validator of \<open>up_codes\<close> accepts it if and only if it is a
  comma-separated list of entries, each an exact three-digit status code, a wildcard
  such as \<open>2xx\<close> or \<open>20x\<close>, or a range \<open>NNN-NNN\<close>, the hundreds digit of every code
  being one of 1 to 5. \<open>200\<close>, \<open>2xx\<close>, \<open>200-302\<close> and \<open>200,301\<close> are accepted;
  \<open>abc\<close>, \<open>600\<close> and \<open>200-\<close> are rejected.
\<close>

theorem up_codes_accepted_iff_grammar:
  "(up_codes_ValidateFunc (StringVal v) k = [] \<longleftrightarrow> spec_up_codes v)
   \<and> up_codes_ValidateFunc (StringVal ''200'') k = []
   \<and> up_codes_ValidateFunc (StringVal ''2xx'') k = []
   \<and> up_codes_ValidateFunc (StringVal ''200-302'') k = []
   \<and> up_codes_ValidateFunc (StringVal ''200,301'') k = []
   \<and> up_codes_ValidateFunc (StringVal ''abc'') k \<noteq> []
   \<and> up_codes_ValidateFunc (StringVal ''600'') k \<noteq> []
   \<and> up_codes_ValidateFunc (StringVal ''200-'') k \<noteq> []"
proof -
  have iff: "up_codes_ValidateFunc (StringVal s) k = [] \<longleftrightarrow> spec_up_codes s" for s
    by (simp add: up_codes_ValidateFunc_def StringMatch_def up_codes_match_iff)
  have ev: "spec_up_codes ''200''" "spec_up_codes ''2xx''" "spec_up_codes ''200-302''"
    "spec_up_codes ''200,301''" "\<not> spec_up_codes ''abc''" "\<not> spec_up_codes ''600''"
    "\<not> spec_up_codes ''200-''"
    by (simp_all add: spec_up_codes_def spec_up_code_entry_def spec_exact_code_def
        spec_wildcard_def spec_code_range_def hundreds_def isDigit_def between_def byte_def)
  show ?thesis using ev by (simp add: iff)
qed

section \<open>The elements of regions\<close>

text \<open>
  C8, as the code has it: for every element of the \<open>regions\<close> set, validation accepts
  the element if and only if it is one of the eleven supported regions; an unknown
  region code is rejected on its own, with one error whose message names the field
  \<open>regions\<close> and lists the supported regions. The message is the same for every
  rejected value.
\<close>

theorem regions_element_accepted_iff_supported:
  "regions_ValidateFunc (StringVal v) s =
     (if v \<in> set supportedRegions then []
      else [''expected '' @ [dquote] @ ''regions'' @ [dquote] @ '' to be any of '' @ [dquote]
            @ ''af-south-1, ap-east-1, ap-northeast-1, ap-south-1, ap-southeast-1, ap-southeast-2, eu-central-1, eu-west-1, sa-east-1, us-east-1, us-west-1''
            @ [dquote]])
   \<and> length supportedRegions = 11 \<and> distinct supportedRegions"
proof -
  have "length supportedRegions = 11 \<and> distinct supportedRegions"
    by (simp add: supportedRegions_def)
  then show ?thesis
    by (simp add: regions_ValidateFunc_def stringInSlice_iff Quote_regions Quote_region_list)
qed

text \<open>The claim as it was stated asks for an error naming the rejected value. For the
  unknown region \<open>mars-1\<close> the one error does not contain it.\<close>

theorem regions_error_omits_value:
  "''mars-1'' \<notin> set supportedRegions
   \<and> length (regions_ValidateFunc (StringVal ''mars-1'') ''regions'') = 1
   \<and> \<not> Contains (hd (regions_ValidateFunc (StringVal ''mars-1'') ''regions'')) ''mars-1''"
  by code_simp

section \<open>Existence checks\<close>

text \<open>
  C4: when the remote read of an existence check on a check or a channel fails with an
  error whose message contains \<open>404\<close>, the stored identifier is cleared and the entity is
  reported absent, \<open>false\<close> with no error; a read error without \<open>404\<close> comes back
  wrapped, with \<open>false\<close>, and the identifier stays.
\<close>

theorem exists_clears_id_on_404:
  "(Checks_Read C hist (d_Id d) = Inl e \<longrightarrow>
      (if Contains e ''404''
       then checkExists C d hist = (d\<lparr>d_Id := []\<rparr>, (False, None), hist @ [ChecksRead (d_Id d)])
       else checkExists C d hist =
              (d, (False, Some (''unable to read Binocs check: '' @ e)), hist @ [ChecksRead (d_Id d)])))
   \<and> (Channels_Read C hist (cd_Id cd) = Inl e \<longrightarrow>
      (if Contains e ''404''
       then channelExists C cd hist =
              (cd\<lparr>cd_Id := []\<rparr>, (False, None), hist @ [ChannelsRead (cd_Id cd)])
       else channelExists C cd hist =
              (cd, (False, Some (''unable to read Binocs channel: '' @ e)),
               hist @ [ChannelsRead (cd_Id cd)])))"
  by (simp add: checkExists_def checkRead_def channelExists_def channelRead_def
      Contains_404_check Contains_404_channel del: Contains.simps append.simps)

theorem exists_clears_id_on_404_witness:
  "checkExists (failingClient ''HTTP 404 Not Found'') (exampleTcpCheck\<lparr>d_Id := ''id-7''\<rparr>) []
     = (exampleTcpCheck\<lparr>d_Id := []\<rparr>, (False, None), [ChecksRead ''id-7''])
   \<and> channelExists (failingClient ''HTTP 500'') exampleChannel []
     = (exampleChannel, (False, Some ''unable to read Binocs channel: HTTP 500''),
        [ChannelsRead ''ch-1''])"
  using exists_clears_id_on_404 [of "failingClient ''HTTP 404 Not Found''" "[]"
      "exampleTcpCheck\<lparr>d_Id := ''id-7''\<rparr>" "''HTTP 404 Not Found''" exampleChannel]
    exists_clears_id_on_404 [of "failingClient ''HTTP 500''" "[]"
      "exampleTcpCheck" "''HTTP 500''" exampleChannel]
  by (simp add: failingClient_def HasPrefix_def exampleChannel_def)

section \<open>Creation\<close>

text \<open>
  C6: when the remote create call of a check or a channel returns an error, the
  operation returns that error wrapped with context and stores no identifier, the
  resource data are as they were; when it succeeds, the identifier it returned is stored.
\<close>

theorem create_error_stores_no_id:
  "(constructCheckPayload L d = (p, None) \<longrightarrow>
      (case Checks_Create C hist p of
         Inl e \<Rightarrow> checkCreate L C d hist
                    = (d, Some (''unable to create Binocs check: '' @ e), hist @ [ChecksCreate p])
       | Inr check \<Rightarrow> d_Id (fst (checkCreate L C d hist)) = Ident check))
   \<and> (case Channels_Create C hist (fst (constructChannelPayload cd)) of
         Inl e \<Rightarrow> channelCreate C cd hist
                    = (cd, Some (''unable to create Binocs channel: '' @ e),
                       hist @ [ChannelsCreate (fst (constructChannelPayload cd))])
       | Inr channel \<Rightarrow> cd_Id (fst (channelCreate C cd hist)) = Channel_Ident channel)"
  by (auto simp: checkCreate_def checkRead_def channelCreate_def channelRead_def
      constructChannelPayload_def Let_def
      split: sum.splits prod.splits option.splits if_splits simp del: append.simps)

theorem create_error_stores_no_id_witness:
  "checkCreate plainLib (failingClient ''boom'') exampleTcpCheck []
     = (exampleTcpCheck, Some ''unable to create Binocs check: boom'',
        [ChecksCreate (fst (constructCheckPayload plainLib exampleTcpCheck))])
   \<and> d_Id (fst (checkCreate plainLib echoClient exampleTcpCheck [])) = ''id-1''
   \<and> channelCreate (failingClient ''boom'') exampleChannel []
     = (exampleChannel, Some ''unable to create Binocs channel: boom'',
        [ChannelsCreate (fst (constructChannelPayload exampleChannel))])
   \<and> cd_Id (fst (channelCreate echoClient exampleChannel [])) = ''id-1''"
proof -
  have p: "constructCheckPayload plainLib exampleTcpCheck
      = (fst (constructCheckPayload plainLib exampleTcpCheck), None)"
    using example_tcp_payload by (simp add: prod_eq_iff)
  show ?thesis
    using create_error_stores_no_id [of plainLib exampleTcpCheck
        "fst (constructCheckPayload plainLib exampleTcpCheck)" "failingClient ''boom''" "[]"
        exampleChannel]
      create_error_stores_no_id [of plainLib exampleTcpCheck
        "fst (constructCheckPayload plainLib exampleTcpCheck)" echoClient "[]" exampleChannel]
      p
    by (simp add: failingClient_def echoClient_def)
qed

section \<open>Updating the checks of a channel\<close>




section \<open>The protocol of a validated resource\<close>

text \<open>
  C10: for every resource string the validator of \<open>resource\<close> accepts, the protocol that
  the payload builder derives, the upper-cased piece before the first colon, is one of
  \<open>HTTP\<close>, \<open>HTTPS\<close> and \<open>TCP\<close>, and it is the protocol of the payload built from a field
  set with that resource. This holds whatever the rest of the URL parser and the
  mapping of characters outside ASCII do.
\<close>

theorem validated_resource_protocol:
  assumes "resource_ValidateFunc L (StringVal v) s = []"
  shows "deriveProtocol L v \<in> {protocolHTTP, protocolHTTPS, protocolTCP}
    \<and> (d_resource d = Some v \<longrightarrow>
         Protocol (fst (constructCheckPayload L d)) = deriveProtocol L v)"
  using validated_protocol [OF assms] payload_start_Protocol [of d v L]
  by (auto simp: construct_Protocol split: if_splits)

theorem validated_resource_protocol_witness:
  "resource_ValidateFunc plainLib (StringVal ''https://example.com/health'') ''resource'' = []
   \<and> deriveProtocol plainLib ''https://example.com/health'' = protocolHTTPS
   \<and> Protocol (fst (constructCheckPayload plainLib exampleHttpCheck)) = protocolHTTPS"
proof -
  have a: "resource_ValidateFunc plainLib (StringVal ''https://example.com/health'') ''resource'' = []"
    by code_simp
  have b: "deriveProtocol plainLib ''https://example.com/health'' = protocolHTTPS"
    by code_simp
  have c: "d_resource exampleHttpCheck = Some ''https://example.com/health''"
    by (simp add: exampleHttpCheck_def)
  from validated_resource_protocol [OF a, of exampleHttpCheck] a b c show ?thesis
    by simp
qed

section \<open>The protocol rules of the payload\<close>

text \<open>
  C2: for every validated field set, payload construction fails when the protocol derived
  from the resource is \<open>HTTP\<close> or \<open>HTTPS\<close> and \<open>method\<close> or \<open>up_codes\<close> is absent, and
  fails when the protocol is \<open>TCP\<close> and \<open>method\<close> or \<open>up_codes\<close> is present; otherwise it
  succeeds, and the payload has both fields in the first case and neither in the second.
\<close>

theorem payload_protocol_rules:
  assumes "validated L d" and "d_resource d = Some v"
  shows "(deriveProtocol L v = protocolHTTP \<or> deriveProtocol L v = protocolHTTPS
          \<or> deriveProtocol L v = protocolTCP)
    \<and> (deriveProtocol L v = protocolHTTP \<or> deriveProtocol L v = protocolHTTPS \<longrightarrow>
         (if d_method d = None \<or> d_up_codes d = None
          then snd (constructCheckPayload L d) \<noteq> None
          else snd (constructCheckPayload L d) = None
               \<and> d_method d = Some (Method (fst (constructCheckPayload L d)))
               \<and> d_up_codes d = Some (UpCodes (fst (constructCheckPayload L d)))))
    \<and> (deriveProtocol L v = protocolTCP \<longrightarrow>
         (if d_method d \<noteq> None \<or> d_up_codes d \<noteq> None
          then snd (constructCheckPayload L d) \<noteq> None
          else snd (constructCheckPayload L d) = None
               \<and> Method (fst (constructCheckPayload L d)) = []
               \<and> UpCodes (fst (constructCheckPayload L d)) = []))"
proof -
  from validated_fields [OF assms(1)] assms(2)
  have acc: "resource_ValidateFunc L (StringVal v) ''resource'' = []"
    and m: "d_method d \<noteq> Some []" and u: "d_up_codes d \<noteq> Some []"
    by auto
  from validated_protocol [OF acc]
  have ne: "v \<noteq> []" and tri: "deriveProtocol L v = protocolHTTP
      \<or> deriveProtocol L v = protocolHTTPS \<or> deriveProtocol L v = protocolTCP"
    by (auto split: if_splits)
  have P: "Protocol (payload_start L d) = deriveProtocol L v"
    using assms(2) ne by (rule payload_start_Protocol)
  have http: "snd (constructCheckPayload L d) \<noteq> None"
    if "deriveProtocol L v = protocolHTTP \<or> deriveProtocol L v = protocolHTTPS"
      and "d_method d = None \<or> d_up_codes d = None"
    using that P m u
    by (auto simp: constructCheckPayload_def payload_up_codes_def Let_def GetOk_string_def
        payload_middle_fields split: option.splits)
  have http_ok: "snd (constructCheckPayload L d) = None
      \<and> d_method d = Some (Method (fst (constructCheckPayload L d)))
      \<and> d_up_codes d = Some (UpCodes (fst (constructCheckPayload L d)))"
    if "deriveProtocol L v = protocolHTTP \<or> deriveProtocol L v = protocolHTTPS"
      and "\<not> (d_method d = None \<or> d_up_codes d = None)"
    using that P m u
    by (auto simp: constructCheckPayload_def payload_up_codes_def Let_def GetOk_string_def
        payload_middle_fields payload_end_fields split: option.splits)
  have tcp: "snd (constructCheckPayload L d) \<noteq> None"
    if "deriveProtocol L v = protocolTCP" and "d_method d \<noteq> None \<or> d_up_codes d \<noteq> None"
    using that P m u protocols_differ
    by (auto simp: constructCheckPayload_def payload_up_codes_def Let_def GetOk_string_def
        payload_middle_fields split: option.splits)
  have tcp_ok: "snd (constructCheckPayload L d) = None
      \<and> Method (fst (constructCheckPayload L d)) = []
      \<and> UpCodes (fst (constructCheckPayload L d)) = []"
    if "deriveProtocol L v = protocolTCP" and "\<not> (d_method d \<noteq> None \<or> d_up_codes d \<noteq> None)"
    using that P m u protocols_differ
    by (auto simp: constructCheckPayload_def payload_up_codes_def Let_def GetOk_string_def
        payload_middle_fields payload_end_fields payload_start_fields split: option.splits)
  show ?thesis
    using tri http http_ok tcp tcp_ok by presburger
qed

theorem payload_protocol_rules_witness:
  "validated plainLib exampleHttpCheck
   \<and> snd (constructCheckPayload plainLib exampleHttpCheck) = None
   \<and> Method (fst (constructCheckPayload plainLib exampleHttpCheck)) = ''GET''
   \<and> UpCodes (fst (constructCheckPayload plainLib exampleHttpCheck)) = ''200-302''
   \<and> validated plainLib (exampleHttpCheck\<lparr>d_method := None\<rparr>)
   \<and> snd (constructCheckPayload plainLib (exampleHttpCheck\<lparr>d_method := None\<rparr>)) \<noteq> None
   \<and> validated plainLib exampleTcpCheck
   \<and> snd (constructCheckPayload plainLib exampleTcpCheck) = None
   \<and> Method (fst (constructCheckPayload plainLib exampleTcpCheck)) = []
   \<and> UpCodes (fst (constructCheckPayload plainLib exampleTcpCheck)) = []
   \<and> validated plainLib (exampleTcpCheck\<lparr>d_up_codes := Some ''200''\<rparr>)
   \<and> snd (constructCheckPayload plainLib (exampleTcpCheck\<lparr>d_up_codes := Some ''200''\<rparr>)) \<noteq> None"
proof -
  have r: "d_resource exampleHttpCheck = Some ''https://example.com/health''"
    "d_resource (exampleHttpCheck\<lparr>d_method := None\<rparr>) = Some ''https://example.com/health''"
    "d_resource exampleTcpCheck = Some ''tcp://db.example.com:5432''"
    "d_resource (exampleTcpCheck\<lparr>d_up_codes := Some ''200''\<rparr>) = Some ''tcp://db.example.com:5432''"
    by (simp_all add: exampleHttpCheck_def exampleTcpCheck_def)
  have f: "d_method exampleHttpCheck = Some ''GET''" "d_up_codes exampleHttpCheck = Some ''200-302''"
    "d_method (exampleHttpCheck\<lparr>d_method := None\<rparr>) = None"
    "d_method exampleTcpCheck = None" "d_up_codes exampleTcpCheck = None"
    "d_up_codes (exampleTcpCheck\<lparr>d_up_codes := Some ''200''\<rparr>) = Some ''200''"
    by (simp_all add: exampleHttpCheck_def exampleTcpCheck_def)
  from payload_protocol_rules [OF example_checks_validated(1) r(1)]
    payload_protocol_rules [OF example_checks_validated(2) r(2)]
    payload_protocol_rules [OF example_checks_validated(3) r(3)]
    payload_protocol_rules [OF example_checks_validated(4) r(4)]
    example_checks_validated
  show ?thesis
    unfolding example_checks_protocol f by (simp add: protocols_differ)
qed

section \<open>TCP resources\<close>

text \<open>
  C1, as the code has it: a value beginning with \<open>tcp://\<close> is accepted if and only if
  what follows \<open>tcp://\<close> is a host, one colon and a port with no other colon in it, the
  host is a valid IPv4 literal or a DNS name, and the port parses as an integer from 1 to
  65535. The value is split at every colon and must give exactly two pieces, so a host
  with a colon in it, and with it every IPv6 literal, is rejected.
\<close>

theorem tcp_resource_accepted_iff:
  assumes "HasPrefix v ''tcp://''"
  shows "resource_ValidateFunc L (StringVal v) s = [] \<longleftrightarrow>
    (\<exists>host port n. drop 6 v = host @ CHR '':'' # port
       \<and> CHR '':'' \<notin> set host \<and> CHR '':'' \<notin> set port
       \<and> (parseIPv4 host \<noteq> None \<or> isDNSName host)
       \<and> Atoi port = Some n \<and> 1 \<le> n \<and> n \<le> 65535)"
proof -
  have "(Split (drop 6 v) (CHR '':'') = [h, p] \<and> isHost h)
      \<longleftrightarrow> (drop 6 v = h @ CHR '':'' # p \<and> CHR '':'' \<notin> set h \<and> CHR '':'' \<notin> set p
           \<and> (parseIPv4 h \<noteq> None \<or> isDNSName h))" for h p
    using isIP_nocolon [of h] by (auto simp: Split_two isHost_def)
  note eq = this
  show ?thesis
    unfolding tcp_accept_raw [OF assms]
  proof
    assume "\<exists>h p n. Split (drop 6 v) (CHR '':'') = [h, p] \<and> isHost h \<and> Atoi p = Some n
        \<and> 1 \<le> n \<and> n \<le> 65535"
    then obtain h p n where a: "Split (drop 6 v) (CHR '':'') = [h, p] \<and> isHost h"
      and b: "Atoi p = Some n \<and> 1 \<le> n \<and> n \<le> 65535"
      by (elim exE conjE) (rule that; simp)
    from a have "drop 6 v = h @ CHR '':'' # p \<and> CHR '':'' \<notin> set h \<and> CHR '':'' \<notin> set p
        \<and> (parseIPv4 h \<noteq> None \<or> isDNSName h)"
      using eq [of h p] by blast
    with b show "\<exists>host port n. drop 6 v = host @ CHR '':'' # port
        \<and> CHR '':'' \<notin> set host \<and> CHR '':'' \<notin> set port
        \<and> (parseIPv4 host \<noteq> None \<or> isDNSName host)
        \<and> Atoi port = Some n \<and> 1 \<le> n \<and> n \<le> 65535"
      by (intro exI [of _ h] exI [of _ p] exI [of _ n]) simp
  next
    assume "\<exists>host port n. drop 6 v = host @ CHR '':'' # port
        \<and> CHR '':'' \<notin> set host \<and> CHR '':'' \<notin> set port
        \<and> (parseIPv4 host \<noteq> None \<or> isDNSName host)
        \<and> Atoi port = Some n \<and> 1 \<le> n \<and> n \<le> 65535"
    then obtain h p n where a: "drop 6 v = h @ CHR '':'' # p \<and> CHR '':'' \<notin> set h
        \<and> CHR '':'' \<notin> set p \<and> (parseIPv4 h \<noteq> None \<or> isDNSName h)"
      and b: "Atoi p = Some n \<and> 1 \<le> n \<and> n \<le> 65535"
      by (elim exE conjE) (rule that; simp)
    from a have "Split (drop 6 v) (CHR '':'') = [h, p] \<and> isHost h"
      using eq [of h p] by blast
    with b show "\<exists>h p n. Split (drop 6 v) (CHR '':'') = [h, p] \<and> isHost h \<and> Atoi p = Some n
        \<and> 1 \<le> n \<and> n \<le> 65535"
      by (intro exI [of _ h] exI [of _ p] exI [of _ n]) simp
  qed
qed

theorem tcp_resource_accepted_iff_witness:
  "HasPrefix ''tcp://db.example.com:5432'' ''tcp://''
   \<and> resource_ValidateFunc plainLib (StringVal ''tcp://db.example.com:5432'') ''resource'' = []
   \<and> (\<exists>host port n. drop 6 ''tcp://db.example.com:5432'' = host @ CHR '':'' # port
       \<and> CHR '':'' \<notin> set host \<and> CHR '':'' \<notin> set port
       \<and> (parseIPv4 host \<noteq> None \<or> isDNSName host)
       \<and> Atoi port = Some n \<and> 1 \<le> n \<and> n \<le> 65535)"
  using tcp_resource_accepted_iff [OF example_tcp_accepted(2), of plainLib "''resource''"]
    example_tcp_accepted
  by (simp only: simp_thms)

text \<open>The claim as it was stated has a tcp resource with an IPv6 host accepted. \<open>::1\<close> is an
  IP address for \<open>isIP\<close>, and the resource is rejected, with or without brackets.\<close>

theorem tcp_ipv6_host_rejected:
  "isIP ''::1''
   \<and> HasPrefix ''tcp://::1:80'' ''tcp://''
   \<and> Atoi ''80'' = Some 80
   \<and> resource_ValidateFunc plainLib (StringVal ''tcp://::1:80'') ''resource'' \<noteq> []
   \<and> resource_ValidateFunc plainLib (StringVal ''tcp://[::1]:80'') ''resource'' \<noteq> []"
  by code_simp

section \<open>The length of a DNS host\<close>

text \<open>
  C7, as the code has it: when the host of an accepted tcp resource is not an IP address,
  it is not empty, it has at most 255 characters other than dots, and it matches
  \<open>validDNSNamePattern\<close>, which bounds and validates its labels. So a DNS host with more
  than 255 characters other than dots is rejected.
\<close>

theorem dns_host_bound:
  assumes "HasPrefix v ''tcp://''"
    and "resource_ValidateFunc L (StringVal v) s = []"
    and "Split (drop 6 v) (CHR '':'') = [host, port]"
    and "\<not> isIP host"
  shows "length (filter (\<lambda>c. c \<noteq> CHR ''.'') host) \<le> 255
    \<and> MatchString validDNSNamePattern host \<and> host \<noteq> []"
proof -
  from assms(2) have "isHost host"
    unfolding tcp_accept_raw [OF assms(1)] using assms(3) by auto
  with assms(4) have "isDNSName host" by (simp add: isHost_def)
  then show ?thesis
    by (auto simp: isDNSName_def split: if_splits)
qed

theorem dns_host_bound_witness:
  "length (filter (\<lambda>c. c \<noteq> CHR ''.'') ''db.example.com'') \<le> 255
   \<and> MatchString validDNSNamePattern ''db.example.com'' \<and> ''db.example.com'' \<noteq> []"
  using dns_host_bound [OF example_tcp_accepted(2) example_tcp_accepted(1) example_tcp_split]
  by simp

text \<open>The claim as it was stated bounds the whole host by 255 characters. \<open>isDNSName\<close>
  measures the host with its dots removed: a host of 259 characters is accepted.\<close>

theorem long_dns_host_accepted:
  "length longHost = 259 \<and> \<not> isIP longHost
   \<and> resource_ValidateFunc plainLib (StringVal (''tcp://'' @ longHost @ '':80'')) ''resource'' = []"
proof -
  have "\<not> isIP longHost" by code_simp
  moreover have "resource_ValidateFunc plainLib (StringVal (''tcp://'' @ longHost @ '':80''))
      ''resource'' = []"
    by code_simp
  ultimately show ?thesis using longHost_length by simp
qed

end
